theory Spec2Isabelle
  imports Complex_Main
begin

section \<open>Python values\<close>

text \<open>
  Python's unbounded integers are \<open>int\<close> (or \<open>nat\<close> for lengths and indices). Floats are
  idealised as exact rationals: every float the generator computes is a short sum or
  product of the table constants, \<open>120 / tempo\<close> and small integers. The one operation of
  the program whose outcome depends on whether a float is a Python \<open>float\<close> or a
  \<open>numpy.float64\<close> is division by zero (the first raises \<open>ZeroDivisionError\<close>, the second
  returns \<open>inf\<close> with a warning), and it is applied to \<open>MelodyNote.duration\<close> only; so a
  duration carries its kind, and every other float is its value.

  The exact values differ from the doubles of the program by the rounding of each
  operation. Two places are to be read with that in mind. The averages that
  \<open>_determine_key_and_scale\<close> compares with 0.3 and 0.5 are exact here; for a line such as
  \<open>joy night\<close> (weights 0.8 and -0.2) the exact average is 0.3 where the program computes
  0.30000000000000004, so at such an input (and a mood outside the table) the program
  selects major and the definition below dorian. And \<open>120 / tempo\<close> is positive here
  for every positive tempo, where the double is 0.0 for a tempo beyond about \<open>10^325\<close>.

  A string is a list of characters, read as the code points 0..255.
\<close>

datatype py_error =
    ZeroDivisionError
  | ValueError
  | KeyError
  | GenerationFailed py_error

datatype pyfloat = PyFloat rat | NpFloat64 rat

fun fval :: "pyfloat \<Rightarrow> rat" where
  "fval (PyFloat x) = x"
| "fval (NpFloat64 x) = x"

text \<open>\<open>int(x)\<close> on a float truncates toward zero.\<close>

definition py_int :: "rat \<Rightarrow> int" where
  "py_int x = (if x < 0 then \<lceil>x\<rceil> else \<lfloor>x\<rfloor>)"

text \<open>\<open>np.mean\<close> of a list of floats. On the empty list numpy returns \<open>nan\<close>; the
  generator never calls it there (lemma \<open>split_ws_lyric_line\<close> below).\<close>

definition np_mean :: "rat list \<Rightarrow> rat" where
  "np_mean xs = sum_list xs / of_nat (length xs)"

subsection \<open>String methods\<close>

definition isspace :: "char \<Rightarrow> bool" where
  "isspace c = ((of_char c :: nat) \<in> {9, 10, 11, 12, 13, 28, 29, 30, 31, 32, 133, 160})"

definition lower_char :: "char \<Rightarrow> char" where
  "lower_char c =
     (let n = (of_char c :: nat)
      in if (65 \<le> n \<and> n \<le> 90) \<or> (192 \<le> n \<and> n \<le> 222 \<and> n \<noteq> 215)
         then char_of (n + 32) else c)"

definition lower :: "string \<Rightarrow> string" where
  "lower s = map lower_char s"

definition strip :: "string \<Rightarrow> string" where
  "strip s = rev (dropWhile isspace (rev (dropWhile isspace s)))"

text \<open>\<open>s.split(sep)\<close> for a one-character separator: never empty, keeps empty fields.\<close>

fun split_on :: "char \<Rightarrow> string \<Rightarrow> string list" where
  "split_on sep [] = [[]]"
| "split_on sep (c # cs) =
     (if c = sep then [] # split_on sep cs
      else (case split_on sep cs of
              [] \<Rightarrow> [[c]]
            | w # ws \<Rightarrow> (c # w) # ws))"

text \<open>The maximal runs of characters that satisfy \<open>P\<close>, left to right; \<open>cur\<close> is the run
  being read, reversed.\<close>

fun runs :: "(char \<Rightarrow> bool) \<Rightarrow> string \<Rightarrow> string \<Rightarrow> string list" where
  "runs P cur [] = (if cur = [] then [] else [rev cur])"
| "runs P cur (c # cs) =
     (if P c then runs P (c # cur) cs
      else if cur = [] then runs P [] cs
      else rev cur # runs P [] cs)"

text \<open>\<open>s.split()\<close>: the maximal runs of non-whitespace characters.\<close>

definition split_ws :: "string \<Rightarrow> string list" where
  "split_ws s = runs (\<lambda>c. \<not> isspace c) [] s"

text \<open>\<open>re.findall(r'\b\w+\b', s)\<close>: the maximal runs of word characters (letters, digits
  and the underscore).\<close>

definition is_word_char :: "char \<Rightarrow> bool" where
  "is_word_char c =
     (let n = (of_char c :: nat)
      in (48 \<le> n \<and> n \<le> 57) \<or> (65 \<le> n \<and> n \<le> 90) \<or> n = 95 \<or> (97 \<le> n \<and> n \<le> 122)
         \<or> n \<in> {170, 178, 179, 181, 185, 186, 188, 189, 190}
         \<or> (192 \<le> n \<and> n \<le> 214) \<or> (216 \<le> n \<and> n \<le> 246) \<or> 248 \<le> n)"

definition findall_words :: "string \<Rightarrow> string list" where
  "findall_words s = runs is_word_char [] s"

text \<open>\<open>str(n)\<close> for an integer.\<close>

fun str_nat :: "nat \<Rightarrow> string" where
  "str_nat n =
     (if n < 10 then [char_of (48 + n)]
      else str_nat (n div 10) @ [char_of (48 + n mod 10)])"

definition str_int :: "int \<Rightarrow> string" where
  "str_int i = (if i < 0 then CHR ''-'' # str_nat (nat (- i)) else str_nat (nat i))"

section \<open>Data structures of \<open>enhanced_music_generator.py\<close>\<close>

record AudioFeatures =
  tempo :: int
  key :: string
  time_signature :: string
  energy :: rat
  valence :: rat
  danceability :: rat
  acousticness :: rat
  instrumentalness :: rat

record MelodyNote =
  pitch :: int
  duration :: pyfloat
  velocity :: int
  syllable :: string
  timestamp :: rat

record MelodyPhrase =
  phrase_notes :: "MelodyNote list"
  start_time :: rat
  emotion_weight :: rat
  lyric_line :: string

text \<open>The dictionary returned by \<open>_analyze_lyrics_structure\<close>.\<close>

record lyric_analysis =
  lines :: "string list"
  line_count :: nat
  emotional_arc :: "rat list"
  syllable_counts :: "nat list"
  total_syllables :: nat

record GeneratedMelody =
  phrases :: "MelodyPhrase list"
  audio_features :: AudioFeatures
  lyric_structure :: lyric_analysis
  total_duration :: rat
  note_count :: nat

record VocalSettings =
  voice_type :: string
  pitch_range :: "int \<times> int"
  vibrato_intensity :: rat
  breath_control :: rat
  articulation_style :: string

text \<open>One entry of \<open>_analyze_line_syllables\<close>; the key \<open>'emotion_weight'\<close> is read into the
  local \<open>word_emotion\<close>.\<close>

record word_data =
  word :: string
  syllable_count :: nat
  stress_pattern :: "bool list"
  word_emotion :: rat

section \<open>The random source\<close>

text \<open>
  \<open>np.random\<close> is a global generator. Its state is a value of some type \<open>'g\<close>, threaded
  through every call that draws; what a draw returns is left open: \<open>next_index\<close> is the
  raw draw behind \<open>np.random.choice\<close> and \<open>next_normal\<close> the one behind
  \<open>np.random.normal(0, 2)\<close>.
\<close>

record 'g random_source =
  next_index :: "'g \<Rightarrow> nat \<times> 'g"
  next_normal :: "'g \<Rightarrow> real \<times> 'g"

text \<open>\<open>np.random.choice(xs)\<close> and \<open>np.random.choice(xs, p=...)\<close>: one element of \<open>xs\<close>.\<close>

definition random_choice :: "'g random_source \<Rightarrow> 'a list \<Rightarrow> 'g \<Rightarrow> 'a \<times> 'g" where
  "random_choice R xs g = (case next_index R g of (r, g') \<Rightarrow> (xs ! (r mod length xs), g'))"

section \<open>\<open>EnhancedMelodyGenerator\<close>\<close>

subsection \<open>Tables\<close>

definition scales :: "(string \<times> int list) list" where
  "scales =
    [(''major'', [0, 2, 4, 5, 7, 9, 11]),
     (''minor'', [0, 2, 3, 5, 7, 8, 10]),
     (''dorian'', [0, 2, 3, 5, 7, 9, 10]),
     (''mixolydian'', [0, 2, 4, 5, 7, 9, 10]),
     (''pentatonic_major'', [0, 2, 4, 7, 9]),
     (''pentatonic_minor'', [0, 3, 5, 7, 10]),
     (''blues'', [0, 3, 5, 6, 7, 10])]"

text \<open>An entry of \<open>emotion_mappings\<close>: scale, tempo_mod, energy.\<close>

record mood_config =
  mood_scale :: string
  mood_tempo_mod :: rat
  mood_energy :: rat

definition emotion_mappings :: "(string \<times> mood_config) list" where
  "emotion_mappings =
    [(''happy'', \<lparr>mood_scale = ''major'', mood_tempo_mod = 11/10, mood_energy = 8/10\<rparr>),
     (''sad'', \<lparr>mood_scale = ''minor'', mood_tempo_mod = 9/10, mood_energy = 4/10\<rparr>),
     (''energetic'', \<lparr>mood_scale = ''mixolydian'', mood_tempo_mod = 12/10, mood_energy = 9/10\<rparr>),
     (''calm'', \<lparr>mood_scale = ''pentatonic_major'', mood_tempo_mod = 8/10, mood_energy = 3/10\<rparr>),
     (''mysterious'', \<lparr>mood_scale = ''dorian'', mood_tempo_mod = 95/100, mood_energy = 5/10\<rparr>),
     (''uplifting'', \<lparr>mood_scale = ''major'', mood_tempo_mod = 105/100, mood_energy = 7/10\<rparr>)]"

definition emotion_weights :: "(string \<times> rat) list" where
  "emotion_weights =
    [(''love'', 9/10), (''joy'', 8/10), (''happy'', 7/10), (''beautiful'', 6/10),
     (''amazing'', 7/10), (''wonderful'', 8/10), (''perfect'', 6/10), (''dream'', 5/10),
     (''sunshine'', 7/10), (''freedom'', 6/10), (''hope'', 5/10), (''smile'', 6/10),
     (''sad'', -7/10), (''pain'', -8/10), (''hurt'', -6/10), (''broken'', -7/10),
     (''lonely'', -6/10), (''dark'', -5/10), (''tears'', -6/10), (''goodbye'', -5/10),
     (''lost'', -6/10), (''empty'', -7/10), (''cold'', -4/10), (''fear'', -6/10),
     (''time'', 0), (''day'', 1/10), (''night'', -2/10), (''way'', 0),
     (''life'', 2/10), (''world'', 1/10), (''heart'', 3/10), (''soul'', 2/10)]"

text \<open>\<open>self.emotion_weights.get(word, 0.0)\<close>\<close>

definition get_emotion_weight :: "string \<Rightarrow> rat" where
  "get_emotion_weight w = (case map_of emotion_weights w of None \<Rightarrow> 0 | Some x \<Rightarrow> x)"

subsection \<open>Lyric analysis\<close>

text \<open>\<open>max(1, len([c for c in word if c.lower() in 'aeiou']))\<close>\<close>

definition count_syllables :: "string \<Rightarrow> nat" where
  "count_syllables w = max 1 (length (filter (\<lambda>c. lower_char c \<in> set ''aeiou'') w))"

text \<open>\<open>[line.strip() for line in lyrics.split('\n') if line.strip()]\<close>\<close>

definition lyric_lines :: "string \<Rightarrow> string list" where
  "lyric_lines lyrics =
     map strip (filter (\<lambda>line. strip line \<noteq> []) (split_on CHR 0x0A lyrics))"

definition line_emotion :: "string \<Rightarrow> rat" where
  "line_emotion line = np_mean (map get_emotion_weight (split_ws (lower line)))"

definition line_syllable_count :: "string \<Rightarrow> nat" where
  "line_syllable_count line = sum_list (map count_syllables (split_ws (lower line)))"

definition analyze_lyrics_structure :: "string \<Rightarrow> lyric_analysis" where
  "analyze_lyrics_structure lyrics =
     (let ls = lyric_lines lyrics
      in \<lparr>lines = ls,
          line_count = length ls,
          emotional_arc = map line_emotion ls,
          syllable_counts = map line_syllable_count ls,
          total_syllables = sum_list (map line_syllable_count ls)\<rparr>)"

definition default_stress :: "nat \<Rightarrow> bool list" where
  "default_stress n =
     (if n = 1 then [True]
      else if n = 2 then [True, False]
      else map (\<lambda>i. i mod 2 = 0) [0..<n])"

definition analyze_word :: "string \<Rightarrow> word_data" where
  "analyze_word w =
     \<lparr>word = w,
      syllable_count = count_syllables w,
      stress_pattern = default_stress (count_syllables w),
      word_emotion = get_emotion_weight w\<rparr>"

definition analyze_line_syllables :: "string \<Rightarrow> word_data list" where
  "analyze_line_syllables line = map analyze_word (split_ws (lower line))"

subsection \<open>Key and scale\<close>

definition determine_key_and_scale ::
  "'g random_source \<Rightarrow> rat list \<Rightarrow> string \<Rightarrow> 'g \<Rightarrow> (int \<times> string) \<times> 'g" where
  "determine_key_and_scale R arc mood g =
     (let avg_emotion = (if arc \<noteq> [] then np_mean arc else 0);
          scale_name =
            (case map_of emotion_mappings (lower mood) of
               Some cfg \<Rightarrow> mood_scale cfg
             | None \<Rightarrow>
                 if avg_emotion > 3/10 then ''major''
                 else if avg_emotion < - (3/10) then ''minor''
                 else ''dorian'');
          (root_note, g') =
            (if avg_emotion > 1/2 then random_choice R [60, 62, 64, 67] g
             else if avg_emotion < - (1/2) then random_choice R [57, 59, 61, 65] g
             else random_choice R [60, 62, 65, 67] g)
      in ((root_note, scale_name), g'))"

subsection \<open>Audio features\<close>

definition note_names :: "string list" where
  "note_names =
     [''C'', ''C#'', ''D'', ''D#'', ''E'', ''F'', ''F#'', ''G'', ''G#'', ''A'', ''A#'', ''B'']"

definition midi_to_note_name :: "int \<Rightarrow> string" where
  "midi_to_note_name midi_note =
     (let octave = midi_note div 12 - 1;
          note = note_names ! nat (midi_note mod 12)
      in note @ str_int octave)"

definition genre_adjustments :: "(string \<times> (string \<times> rat) list) list" where
  "genre_adjustments =
    [(''pop'', [(''danceability'', 8/10), (''energy'', 7/10), (''acousticness'', 2/10)]),
     (''rock'', [(''energy'', 9/10), (''acousticness'', 1/10), (''danceability'', 6/10)]),
     (''electronic'', [(''danceability'', 9/10), (''energy'', 8/10), (''acousticness'', 5/100)]),
     (''folk'', [(''acousticness'', 8/10), (''energy'', 4/10), (''danceability'', 3/10)])]"

text \<open>\<open>setattr(features, key, value)\<close> for a float \<open>value\<close>; a name that is no float field of
  the dataclass changes none of its fields.\<close>

definition setattr :: "AudioFeatures \<Rightarrow> string \<Rightarrow> rat \<Rightarrow> AudioFeatures" where
  "setattr features k v =
     (if k = ''energy'' then features\<lparr>energy := v\<rparr>
      else if k = ''valence'' then features\<lparr>valence := v\<rparr>
      else if k = ''danceability'' then features\<lparr>danceability := v\<rparr>
      else if k = ''acousticness'' then features\<lparr>acousticness := v\<rparr>
      else if k = ''instrumentalness'' then features\<lparr>instrumentalness := v\<rparr>
      else features)"

definition generate_audio_features ::
  "string \<Rightarrow> string \<Rightarrow> int \<Rightarrow> int \<Rightarrow> string \<Rightarrow> AudioFeatures" where
  "generate_audio_features genre mood tempo_bpm root_note scale_name =
     (let features =
            \<lparr>tempo = tempo_bpm,
             key = midi_to_note_name root_note,
             time_signature = ''4/4'',
             energy = 7/10,
             valence = 5/10,
             danceability = 6/10,
             acousticness = 3/10,
             instrumentalness = 1/10\<rparr>;
          features =
            (case map_of emotion_mappings (lower mood) of
               Some mood_cfg \<Rightarrow>
                 features\<lparr>energy := mood_energy mood_cfg,
                          valence := (if mood_energy mood_cfg > 6/10 then 8/10 else 3/10)\<rparr>
             | None \<Rightarrow> features)
      in case map_of genre_adjustments (lower genre) of
           Some adj \<Rightarrow> fold (\<lambda>(k, v) f. setattr f k v) adj features
         | None \<Rightarrow> features)"

subsection \<open>Melodic contour\<close>

text \<open>\<open>xs.index(v)\<close>: the first position of \<open>v\<close>.\<close>

fun index :: "'a list \<Rightarrow> 'a \<Rightarrow> nat" where
  "index [] v = 0"
| "index (x # xs) v = (if x = v then 0 else Suc (index xs v))"

text \<open>The block under \<open># Constrain to scale\<close>: the scale degree after quantization.
  \<open>min\<close> of an empty list raises \<open>ValueError\<close>.\<close>

definition constrain_to_scale :: "int list \<Rightarrow> int \<Rightarrow> py_error + int" where
  "constrain_to_scale scale_notes scale_degree =
     (if scale_degree \<in> set scale_notes then Inr scale_degree
      else if scale_notes = [] then Inl ValueError
      else (let distances = map (\<lambda>note. \<bar>scale_degree - note\<bar>) scale_notes;
                nearest_idx = index distances (Min (set distances))
            in Inr (scale_notes ! nearest_idx)))"

text \<open>The body of the inner loop of \<open>_generate_phrase_from_line\<close>: one syllable, one note.
  It returns the note, the new pitch cursor, the new time and the new generator state.\<close>

definition syllable_step ::
  "'g random_source \<Rightarrow> word_data \<Rightarrow> rat \<Rightarrow> int \<Rightarrow> int list \<Rightarrow> int \<Rightarrow> nat \<Rightarrow> bool
   \<Rightarrow> int \<Rightarrow> rat \<Rightarrow> 'g \<Rightarrow> py_error + (MelodyNote \<times> int \<times> rat \<times> 'g)" where
  "syllable_step R wd line_weight root_note scale_notes tempo_bpm syl_idx is_stressed
       current_pitch current_time g =
     (let pitch_change =
            (if is_stressed then 2 + py_int (word_emotion wd * 2)
             else - 1 + py_int (word_emotion wd));
          (jitter, g') = random_choice R [- 1, 0, 1] g;
          pitch_change = pitch_change + jitter;
          current_pitch = current_pitch + pitch_change
      in case constrain_to_scale scale_notes ((current_pitch - root_note) mod 12) of
           Inl e \<Rightarrow> Inl e
         | Inr scale_degree \<Rightarrow>
             (let final_pitch =
                    root_note + scale_degree + ((current_pitch - root_note) div 12) * 12
              in if tempo_bpm = 0 then Inl ZeroDivisionError
                 else
                   (let dur =
                          (if is_stressed
                           then NpFloat64 ((3/4 + line_weight * (1/4)) * (120 / of_int tempo_bpm))
                           else PyFloat ((1/2) * (120 / of_int tempo_bpm)));
                        vel = (if is_stressed then 90 else 70) + py_int (\<bar>word_emotion wd\<bar> * 20);
                        vel = max 40 (min 127 vel);
                        syllable_text =
                          (if length (stress_pattern wd) > 1
                           then word wd @ ''['' @ str_nat syl_idx @ '']''
                           else word wd);
                        note = \<lparr>pitch = final_pitch, duration = dur, velocity = vel,
                                syllable = syllable_text, timestamp = current_time\<rparr>
                    in Inr (note, current_pitch, current_time + fval dur, g'))))"

text \<open>The loop state: pitch cursor, current time, the notes so far, generator state.\<close>

type_synonym 'g phrase_state = "int \<times> rat \<times> MelodyNote list \<times> 'g"

fun syllable_loop ::
  "'g random_source \<Rightarrow> word_data \<Rightarrow> rat \<Rightarrow> int \<Rightarrow> int list \<Rightarrow> int \<Rightarrow> (nat \<times> bool) list
   \<Rightarrow> 'g phrase_state \<Rightarrow> py_error + 'g phrase_state" where
  "syllable_loop R wd line_weight root_note scale_notes tempo_bpm [] st = Inr st"
| "syllable_loop R wd line_weight root_note scale_notes tempo_bpm ((syl_idx, is_stressed) # rest)
       (current_pitch, current_time, ns, g) =
     (case syllable_step R wd line_weight root_note scale_notes tempo_bpm syl_idx is_stressed
             current_pitch current_time g of
        Inl e \<Rightarrow> Inl e
      | Inr (note, current_pitch', current_time', g') \<Rightarrow>
          syllable_loop R wd line_weight root_note scale_notes tempo_bpm rest
            (current_pitch', current_time', ns @ [note], g'))"

fun word_loop ::
  "'g random_source \<Rightarrow> rat \<Rightarrow> int \<Rightarrow> int list \<Rightarrow> int \<Rightarrow> word_data list
   \<Rightarrow> 'g phrase_state \<Rightarrow> py_error + 'g phrase_state" where
  "word_loop R line_weight root_note scale_notes tempo_bpm [] st = Inr st"
| "word_loop R line_weight root_note scale_notes tempo_bpm (wd # rest) st =
     (case syllable_loop R wd line_weight root_note scale_notes tempo_bpm
             (enumerate 0 (stress_pattern wd)) st of
        Inl e \<Rightarrow> Inl e
      | Inr st' \<Rightarrow> word_loop R line_weight root_note scale_notes tempo_bpm rest st')"

definition generate_phrase_from_line ::
  "'g random_source \<Rightarrow> string \<Rightarrow> word_data list \<Rightarrow> rat \<Rightarrow> int \<Rightarrow> string \<Rightarrow> rat \<Rightarrow> int \<Rightarrow> 'g
   \<Rightarrow> py_error + (MelodyPhrase \<times> 'g)" where
  "generate_phrase_from_line R line syllable_data line_weight root_note scale_name start tempo_bpm g =
     (case map_of scales scale_name of
        None \<Rightarrow> Inl KeyError
      | Some scale_notes \<Rightarrow>
          (case word_loop R line_weight root_note scale_notes tempo_bpm syllable_data
                  (root_note + 12, start, [], g) of
             Inl e \<Rightarrow> Inl e
           | Inr (current_pitch, current_time, ns, g') \<Rightarrow>
               Inr (\<lparr>phrase_notes = ns, start_time = start,
                     emotion_weight = line_weight, lyric_line = line\<rparr>, g')))"

subsection \<open>The melody\<close>

definition phrase_duration :: "MelodyPhrase \<Rightarrow> rat" where
  "phrase_duration phrase = sum_list (map (\<lambda>note. fval (duration note)) (phrase_notes phrase))"

fun phrase_loop ::
  "'g random_source \<Rightarrow> lyric_analysis \<Rightarrow> int \<Rightarrow> string \<Rightarrow> int \<Rightarrow> (nat \<times> string) list
   \<Rightarrow> MelodyPhrase list \<times> rat \<times> 'g \<Rightarrow> py_error + (MelodyPhrase list \<times> rat \<times> 'g)" where
  "phrase_loop R la root_note scale_name tempo_bpm [] st = Inr st"
| "phrase_loop R la root_note scale_name tempo_bpm ((line_idx, line) # rest)
       (melody_phrases, current_time, g) =
     (if strip line = []
      then phrase_loop R la root_note scale_name tempo_bpm rest (melody_phrases, current_time, g)
      else
        (case generate_phrase_from_line R line (analyze_line_syllables line)
                (emotional_arc la ! line_idx) root_note scale_name current_time tempo_bpm g of
           Inl e \<Rightarrow> Inl e
         | Inr (phrase, g') \<Rightarrow>
             phrase_loop R la root_note scale_name tempo_bpm rest
               (melody_phrases @ [phrase], current_time + phrase_duration phrase, g')))"

definition generate_melody_from_lyrics ::
  "'g random_source \<Rightarrow> string \<Rightarrow> string \<Rightarrow> string \<Rightarrow> int \<Rightarrow> 'g
   \<Rightarrow> py_error + (GeneratedMelody \<times> 'g)" where
  "generate_melody_from_lyrics R lyrics genre mood tempo_bpm g =
     (let la = analyze_lyrics_structure lyrics;
          ((root_note, scale_name), g1) = determine_key_and_scale R (emotional_arc la) mood g;
          features = generate_audio_features genre mood tempo_bpm root_note scale_name
      in case phrase_loop R la root_note scale_name tempo_bpm (enumerate 0 (lines la))
                ([], 0, g1) of
           Inl e \<Rightarrow> Inl e
         | Inr (melody_phrases, current_time, g2) \<Rightarrow>
             Inr (\<lparr>phrases = melody_phrases,
                   audio_features = features,
                   lyric_structure = la,
                   total_duration = current_time,
                   note_count = sum_list (map (\<lambda>phrase. length (phrase_notes phrase)) melody_phrases)\<rparr>,
                  g2))"

section \<open>\<open>EnhancedVocalGenerator\<close>\<close>

text \<open>An entry of \<open>phoneme_timing\<close>: the keys phoneme, start_time, duration, pitch and
  velocity of the dictionary.\<close>

record phoneme_event =
  phoneme :: char
  ph_start_time :: rat
  ph_duration :: rat
  ph_pitch :: int
  ph_velocity :: int

text \<open>The dictionary \<open>vocal_track\<close>, its \<open>metadata\<close> entry flattened.\<close>

record vocal_track_data =
  sample_rate :: nat
  track_duration :: rat
  channels :: nat
  format :: string
  synthesis_method :: string
  voice_model :: string
  processing_chain :: "string list"
  phoneme_count :: nat
  contour_range :: "real \<times> real"
  dynamic_range :: "rat \<times> rat"
  voice_settings :: VocalSettings

record GeneratedVocals =
  vocal_track :: vocal_track_data
  phoneme_timing :: "phoneme_event list"
  pitch_contour :: "real list"
  dynamics :: "rat list"
  vocal_effects :: "(string \<times> rat) list"

text \<open>\<open>for phrase in melody.phrases: for note in phrase.notes\<close> visits these notes, in
  this order.\<close>

definition melody_notes :: "GeneratedMelody \<Rightarrow> MelodyNote list" where
  "melody_notes melody = concat (map phrase_notes (phrases melody))"

subsection \<open>Phoneme timing\<close>

text \<open>\<open>note.syllable.split('[')[0]\<close>\<close>

definition strip_index :: "string \<Rightarrow> string" where
  "strip_index s = takeWhile (\<lambda>c. c \<noteq> CHR ''['') s"

fun phoneme_loop :: "MelodyNote \<Rightarrow> rat \<Rightarrow> string \<Rightarrow> rat \<Rightarrow> phoneme_event list" where
  "phoneme_loop note phoneme_duration [] current_time = []"
| "phoneme_loop note phoneme_duration (p # ps) current_time =
     \<lparr>phoneme = p, ph_start_time = current_time, ph_duration = phoneme_duration,
      ph_pitch = pitch note, ph_velocity = velocity note\<rparr>
     # phoneme_loop note phoneme_duration ps (current_time + phoneme_duration)"

text \<open>The events of one note. \<open>note.duration / len(phonemes)\<close> with no phonemes raises
  for a Python float; for a \<open>numpy.float64\<close> it is \<open>inf\<close> (or \<open>nan\<close>) and the loop over
  the phonemes then appends nothing.\<close>

definition note_phoneme_timing :: "MelodyNote \<Rightarrow> py_error + phoneme_event list" where
  "note_phoneme_timing note =
     (let phonemes = lower (strip_index (syllable note))
      in if phonemes = []
         then (case duration note of
                 PyFloat d \<Rightarrow> Inl ZeroDivisionError
               | NpFloat64 d \<Rightarrow> Inr [])
         else Inr (phoneme_loop note (fval (duration note) / of_nat (length phonemes))
                     phonemes (timestamp note)))"

fun phoneme_notes_loop ::
  "MelodyNote list \<Rightarrow> phoneme_event list \<Rightarrow> py_error + phoneme_event list" where
  "phoneme_notes_loop [] acc = Inr acc"
| "phoneme_notes_loop (note # rest) acc =
     (case note_phoneme_timing note of
        Inl e \<Rightarrow> Inl e
      | Inr evs \<Rightarrow> phoneme_notes_loop rest (acc @ evs))"

definition generate_phoneme_timing :: "GeneratedMelody \<Rightarrow> py_error + phoneme_event list" where
  "generate_phoneme_timing melody = phoneme_notes_loop (melody_notes melody) []"

subsection \<open>Pitch contour and dynamics\<close>

text \<open>\<open>max(1, int(note.duration * 10))\<close>\<close>

definition num_points :: "MelodyNote \<Rightarrow> nat" where
  "num_points note = nat (max 1 (py_int (fval (duration note) * 10)))"

fun contour_points :: "'g random_source \<Rightarrow> real \<Rightarrow> nat \<Rightarrow> 'g \<Rightarrow> real list \<times> 'g" where
  "contour_points R frequency 0 g = ([], g)"
| "contour_points R frequency (Suc n) g =
     (case next_normal R g of
        (variation, g') \<Rightarrow>
          (case contour_points R frequency n g' of
             (ps, g'') \<Rightarrow> ((frequency + variation) # ps, g'')))"

definition note_frequency :: "MelodyNote \<Rightarrow> real" where
  "note_frequency note = 440 * 2 powr ((of_int (pitch note) - 69) / 12)"

fun contour_notes_loop ::
  "'g random_source \<Rightarrow> MelodyNote list \<Rightarrow> real list \<Rightarrow> 'g \<Rightarrow> real list \<times> 'g" where
  "contour_notes_loop R [] acc g = (acc, g)"
| "contour_notes_loop R (note # rest) acc g =
     (case contour_points R (note_frequency note) (num_points note) g of
        (ps, g') \<Rightarrow> contour_notes_loop R rest (acc @ ps) g')"

definition extract_pitch_contour ::
  "'g random_source \<Rightarrow> GeneratedMelody \<Rightarrow> 'g \<Rightarrow> real list \<times> 'g" where
  "extract_pitch_contour R melody g = contour_notes_loop R (melody_notes melody) [] g"

definition envelope :: "nat \<Rightarrow> nat \<Rightarrow> rat" where
  "envelope n i =
     (if (of_nat i :: rat) < of_nat n * (1/10) then of_nat i / (of_nat n * (1/10))
      else if (of_nat i :: rat) > of_nat n * (8/10)
      then (of_nat n - of_nat i) / (of_nat n * (2/10))
      else 1)"

definition note_dynamics :: "MelodyNote \<Rightarrow> rat list" where
  "note_dynamics note =
     (let amplitude = of_int (velocity note) / 127
      in map (\<lambda>i. amplitude * envelope (num_points note) i) [0..<num_points note])"

definition generate_dynamics :: "GeneratedMelody \<Rightarrow> rat list" where
  "generate_dynamics melody = concat (map note_dynamics (melody_notes melody))"

subsection \<open>Effects and the vocal track\<close>

definition generate_vocal_effects :: "VocalSettings \<Rightarrow> (string \<times> rat) list" where
  "generate_vocal_effects vs =
     [(''reverb'', 3/10), (''chorus'', 2/10), (''vibrato_rate'', 5),
      (''vibrato_depth'', vibrato_intensity vs),
      (''breath_noise'', 1 - breath_control vs),
      (''compression'', 6/10), (''eq_low'', 0), (''eq_mid'', 1/10), (''eq_high'', 2/10)]"

text \<open>\<open>(min(xs), max(xs))\<close>; both raise \<open>ValueError\<close> on an empty list.\<close>

definition min_max :: "('a::linorder) list \<Rightarrow> py_error + ('a \<times> 'a)" where
  "min_max xs = (if xs = [] then Inl ValueError else Inr (Min (set xs), Max (set xs)))"

definition synthesize_vocal_track ::
  "GeneratedMelody \<Rightarrow> phoneme_event list \<Rightarrow> real list \<Rightarrow> rat list \<Rightarrow> VocalSettings \<Rightarrow> bool
   \<Rightarrow> py_error + vocal_track_data" where
  "synthesize_vocal_track melody timing contour dyn vs user_voice_sample =
     (case min_max contour of
        Inl e \<Rightarrow> Inl e
      | Inr prange \<Rightarrow>
          (case min_max dyn of
             Inl e \<Rightarrow> Inl e
           | Inr drange \<Rightarrow>
               Inr \<lparr>sample_rate = 44100,
                    track_duration = total_duration melody,
                    channels = 1,
                    format = ''wav'',
                    synthesis_method =
                      (if user_voice_sample then ''neural_vocoder'' else ''parametric''),
                    voice_model = voice_type vs,
                    processing_chain =
                      [''phoneme_synthesis'', ''pitch_modulation'', ''dynamic_control'',
                       ''vocal_effects'', ''mastering''],
                    phoneme_count = length timing,
                    contour_range = prange,
                    dynamic_range = drange,
                    voice_settings = vs\<rparr>))"

definition default_voice_settings :: VocalSettings where
  "default_voice_settings =
     \<lparr>voice_type = ''male_lead'', pitch_range = (60, 84), vibrato_intensity = 3/10,
      breath_control = 7/10, articulation_style = ''clear_melodic''\<rparr>"

definition generate_vocals_with_melody ::
  "'g random_source \<Rightarrow> string \<Rightarrow> GeneratedMelody \<Rightarrow> VocalSettings option \<Rightarrow> bool \<Rightarrow> 'g
   \<Rightarrow> py_error + (GeneratedVocals \<times> 'g)" where
  "generate_vocals_with_melody R lyrics melody settings user_voice_sample g =
     (let vs = (case settings of None \<Rightarrow> default_voice_settings | Some v \<Rightarrow> v)
      in case generate_phoneme_timing melody of
           Inl e \<Rightarrow> Inl e
         | Inr timing \<Rightarrow>
             (case extract_pitch_contour R melody g of
                (contour, g') \<Rightarrow>
                  (let dyn = generate_dynamics melody;
                       effects = generate_vocal_effects vs
                   in case synthesize_vocal_track melody timing contour dyn vs
                             user_voice_sample of
                        Inl e \<Rightarrow> Inl e
                      | Inr track \<Rightarrow>
                          Inr (\<lparr>vocal_track = track, phoneme_timing = timing,
                                pitch_contour = contour, dynamics = dyn,
                                vocal_effects = effects\<rparr>, g'))))"

section \<open>\<open>EnhancedMusicGenerator\<close>\<close>

text \<open>An entry of \<open>genre_configs\<close>; \<open>energy_range\<close> and \<open>structure\<close> are read by nothing that
  reaches the melody or the vocals.\<close>

record genre_config =
  tempo_range :: "int \<times> int"
  vocal_style :: string

definition genre_configs :: "(string \<times> genre_config) list" where
  "genre_configs =
    [(''pop'', \<lparr>tempo_range = (100, 140), vocal_style = ''clear_melodic''\<rparr>),
     (''rock'', \<lparr>tempo_range = (110, 160), vocal_style = ''powerful_raspy''\<rparr>),
     (''electronic'', \<lparr>tempo_range = (120, 140), vocal_style = ''processed_synthetic''\<rparr>)]"

text \<open>The dictionary \<open>song_data\<close>, with the keys title, lyrics, genre and mood present (the
  caller of \<open>generate_song\<close> reads them with \<open>[]\<close>) and the others optional.\<close>

record song_data =
  sd_title :: string
  sd_lyrics :: string
  sd_genre :: string
  sd_mood :: string
  sd_tempo :: "int option"
  sd_vocals :: "string option"
  sd_vocal_settings :: "VocalSettings option"
  sd_user_voice_sample :: bool

text \<open>\<open>np.random.randint(low, high)\<close>: an integer of \<open>[low, high)\<close>.\<close>

definition random_randint :: "'g random_source \<Rightarrow> int \<Rightarrow> int \<Rightarrow> 'g \<Rightarrow> int \<times> 'g" where
  "random_randint R low high g =
     (case next_index R g of (r, g') \<Rightarrow> (low + int r mod (high - low), g'))"

text \<open>\<open>_enhance_song_data\<close>: the tempo and the vocal settings after defaulting.\<close>

definition enhance_song_data ::
  "'g random_source \<Rightarrow> song_data \<Rightarrow> 'g \<Rightarrow> (int \<times> VocalSettings) \<times> 'g" where
  "enhance_song_data R sd g =
     (let config =
            (case map_of genre_configs (lower (sd_genre sd)) of
               Some c \<Rightarrow> c
             | None \<Rightarrow> \<lparr>tempo_range = (100, 140), vocal_style = ''clear_melodic''\<rparr>);
          (tempo_bpm, g') =
            (case sd_tempo sd of
               Some t \<Rightarrow> (t, g)
             | None \<Rightarrow> random_randint R (fst (tempo_range config)) (snd (tempo_range config)) g);
          vs =
            (case sd_vocal_settings sd of
               Some v \<Rightarrow> v
             | None \<Rightarrow>
                 \<lparr>voice_type = (case sd_vocals sd of Some v \<Rightarrow> v | None \<Rightarrow> ''male_lead''),
                  pitch_range = (60, 84), vibrato_intensity = 3/10, breath_control = 7/10,
                  articulation_style = vocal_style config\<rparr>)
      in ((tempo_bpm, vs), g'))"

text \<open>The song, without the fields computed from the clock and the title (id, audio_url,
  created_at) and the metadata copied from the input. The fields carry the prefix
  \<open>song_\<close>, the keys of \<open>song_data\<close> the prefix \<open>sd_\<close>.\<close>

record Song =
  song_title :: string
  song_lyrics :: string
  song_genre :: string
  song_mood :: string
  song_tempo :: int
  song_melody :: GeneratedMelody
  song_vocals :: GeneratedVocals

text \<open>\<open>generate_song\<close>: any exception of a stage is caught and raised again as
  \<open>Exception('Failed to generate song: ...')\<close>.\<close>

definition generate_song :: "'g random_source \<Rightarrow> song_data \<Rightarrow> 'g \<Rightarrow> py_error + (Song \<times> 'g)" where
  "generate_song R sd g =
     (case enhance_song_data R sd g of
        ((tempo_bpm, vs), g1) \<Rightarrow>
          (case generate_melody_from_lyrics R (sd_lyrics sd) (sd_genre sd) (sd_mood sd)
                  tempo_bpm g1 of
             Inl e \<Rightarrow> Inl (GenerationFailed e)
           | Inr (m, g2) \<Rightarrow>
               (case generate_vocals_with_melody R (sd_lyrics sd) m (Some vs)
                       (sd_user_voice_sample sd) g2 of
                  Inl e \<Rightarrow> Inl (GenerationFailed e)
                | Inr (v, g3) \<Rightarrow>
                    Inr (\<lparr>song_title = sd_title sd, song_lyrics = sd_lyrics sd,
                          song_genre = sd_genre sd, song_mood = sd_mood sd,
                          song_tempo = tempo_bpm, song_melody = m, song_vocals = v\<rparr>,
                         g3))))"

section \<open>\<open>LyricsToMelodyGenerator\<close> (\<open>lyrics_to_melody.py\<close>)\<close>

text \<open>The second variant of the pipeline. Its tables \<open>scales\<close> and \<open>emotion_weights\<close> are
  those of the first, entry for entry. The fields of its \<open>Note\<close> and \<open>Phrase\<close> carry the
  prefixes \<open>n_\<close> and \<open>p_\<close>, the keys of its result the prefix \<open>r_\<close>. All its durations
  are Python floats.\<close>

record Note =
  n_pitch :: int
  n_duration :: rat
  n_velocity :: int
  n_syllable :: string

record Phrase =
  p_notes :: "Note list"
  start_beat :: rat
  p_emotion_weight :: rat
  p_stress_pattern :: "bool list"

record melody_result =
  r_lyrics :: string
  r_key :: int
  r_scale :: string
  r_tempo :: int
  melody_lines :: "Phrase list"
  r_total_duration :: rat
  r_note_count :: nat
  r_emotional_arc :: "rat list"

text \<open>\<open>emotion_scales\<close> is set up by the constructor and read by no method.\<close>

definition emotion_scales :: "(string \<times> string) list" where
  "emotion_scales =
    [(''happy'', ''major''), (''sad'', ''minor''), (''nostalgic'', ''dorian''),
     (''dreamy'', ''pentatonic_major''), (''melancholy'', ''pentatonic_minor''),
     (''bluesy'', ''blues''), (''uplifting'', ''mixolydian'')]"

definition stress_patterns :: "(string \<times> bool list) list" where
  "stress_patterns =
    [(''beautiful'', [True, False, False]),
     (''amazing'', [False, True, False]),
     (''wonderful'', [True, False, False]),
     (''together'', [False, True, False]),
     (''forever'', [False, True, False]),
     (''remember'', [False, True, False]),
     (''believe'', [False, True]),
     (''freedom'', [True, False]),
     (''sunshine'', [True, False])]"

text \<open>\<open>max(1, len(re.findall(r'[aeiouAEIOU]', word)))\<close>\<close>

definition count_vowels :: "string \<Rightarrow> nat" where
  "count_vowels w = max 1 (length (filter (\<lambda>c. c \<in> set ''aeiouAEIOU'') w))"

text \<open>The body of the loop of \<open>analyze_syllables\<close>.\<close>

definition analyze_syllables_word :: "string \<Rightarrow> word_data" where
  "analyze_syllables_word w =
     (let n = count_vowels w;
          stress = (case map_of stress_patterns w of
                      Some pat \<Rightarrow> pat
                    | None \<Rightarrow> default_stress n)
      in \<lparr>word = w, syllable_count = n, stress_pattern = stress,
          word_emotion = get_emotion_weight w\<rparr>)"

definition analyze_syllables :: "string \<Rightarrow> word_data list" where
  "analyze_syllables text = map analyze_syllables_word (findall_words (lower text))"

text \<open>The body of the innermost loop of \<open>convert_lyrics_to_melody\<close>.\<close>

definition convert_syllable_step ::
  "'g random_source \<Rightarrow> word_data \<Rightarrow> int \<Rightarrow> int list \<Rightarrow> int \<Rightarrow> nat \<Rightarrow> bool
   \<Rightarrow> int \<Rightarrow> rat \<Rightarrow> 'g \<Rightarrow> py_error + (Note \<times> int \<times> rat \<times> 'g)" where
  "convert_syllable_step R wd root_note scale_notes tempo_bpm syl_idx is_stressed
       current_pitch current_beat g =
     (let pitch_change =
            (if is_stressed then 2 + py_int (word_emotion wd * 2)
             else - 1 + py_int (word_emotion wd));
          (jitter, g') = random_choice R [- 1, 0, 1] g;
          pitch_change = pitch_change + jitter;
          current_pitch = current_pitch + pitch_change
      in case constrain_to_scale scale_notes ((current_pitch - root_note) mod 12) of
           Inl e \<Rightarrow> Inl e
         | Inr scale_degree \<Rightarrow>
             (let final_pitch =
                    root_note + scale_degree + ((current_pitch - root_note) div 12) * 12
              in if tempo_bpm = 0 then Inl ZeroDivisionError
                 else
                   (let dur = (if is_stressed then 3/4 else 1/2) * (120 / of_int tempo_bpm);
                        vel = (if is_stressed then 90 else 70) + py_int (\<bar>word_emotion wd\<bar> * 20);
                        vel = max 40 (min 127 vel);
                        syllable_text =
                          (if length (stress_pattern wd) > 1
                           then word wd @ ''['' @ str_nat syl_idx @ '']''
                           else word wd);
                        note = \<lparr>n_pitch = final_pitch, n_duration = dur, n_velocity = vel,
                                n_syllable = syllable_text\<rparr>
                    in Inr (note, current_pitch, current_beat + dur, g'))))"

text \<open>The loop state: pitch cursor, current beat, the notes of the line so far, generator
  state.\<close>

type_synonym 'g convert_state = "int \<times> rat \<times> Note list \<times> 'g"

fun convert_syllable_loop ::
  "'g random_source \<Rightarrow> word_data \<Rightarrow> int \<Rightarrow> int list \<Rightarrow> int \<Rightarrow> (nat \<times> bool) list
   \<Rightarrow> 'g convert_state \<Rightarrow> py_error + 'g convert_state" where
  "convert_syllable_loop R wd root_note scale_notes tempo_bpm [] st = Inr st"
| "convert_syllable_loop R wd root_note scale_notes tempo_bpm ((syl_idx, is_stressed) # rest)
       (current_pitch, current_beat, ns, g) =
     (case convert_syllable_step R wd root_note scale_notes tempo_bpm syl_idx is_stressed
             current_pitch current_beat g of
        Inl e \<Rightarrow> Inl e
      | Inr (note, current_pitch', current_beat', g') \<Rightarrow>
          convert_syllable_loop R wd root_note scale_notes tempo_bpm rest
            (current_pitch', current_beat', ns @ [note], g'))"

fun convert_word_loop ::
  "'g random_source \<Rightarrow> int \<Rightarrow> int list \<Rightarrow> int \<Rightarrow> word_data list
   \<Rightarrow> 'g convert_state \<Rightarrow> py_error + 'g convert_state" where
  "convert_word_loop R root_note scale_notes tempo_bpm [] st = Inr st"
| "convert_word_loop R root_note scale_notes tempo_bpm (wd # rest) st =
     (case convert_syllable_loop R wd root_note scale_notes tempo_bpm
             (enumerate 0 (stress_pattern wd)) st of
        Inl e \<Rightarrow> Inl e
      | Inr st' \<Rightarrow> convert_word_loop R root_note scale_notes tempo_bpm rest st')"

text \<open>The loop over the lines: the phrases so far, the current beat, generator state.\<close>

fun convert_line_loop ::
  "'g random_source \<Rightarrow> rat list \<Rightarrow> int \<Rightarrow> int list \<Rightarrow> int \<Rightarrow> (nat \<times> string) list
   \<Rightarrow> Phrase list \<times> rat \<times> 'g \<Rightarrow> py_error + (Phrase list \<times> rat \<times> 'g)" where
  "convert_line_loop R arc root_note scale_notes tempo_bpm [] st = Inr st"
| "convert_line_loop R arc root_note scale_notes tempo_bpm ((line_idx, line) # rest)
       (phrases_so_far, current_beat, g) =
     (case convert_word_loop R root_note scale_notes tempo_bpm (analyze_syllables line)
             (root_note + 12, current_beat, [], g) of
        Inl e \<Rightarrow> Inl e
      | Inr (current_pitch, current_beat', ns, g') \<Rightarrow>
          convert_line_loop R arc root_note scale_notes tempo_bpm rest
            (phrases_so_far @
               [\<lparr>p_notes = ns,
                 start_beat = current_beat' - sum_list (map n_duration ns),
                 p_emotion_weight = arc ! line_idx,
                 p_stress_pattern = map (\<lambda>n. n_velocity n > 80) ns\<rparr>],
             current_beat', g'))"

text \<open>The scale chosen under \<open># Choose scale based on emotion\<close>.\<close>

definition convert_scale_name :: "rat list \<Rightarrow> string" where
  "convert_scale_name arc =
     (let avg_emotion = (if arc \<noteq> [] then sum_list arc / of_nat (length arc) else 0)
      in if avg_emotion > 3/10 then ''major''
         else if avg_emotion < - (3/10) then ''minor''
         else ''dorian'')"

definition convert_lyrics_to_melody ::
  "'g random_source \<Rightarrow> string \<Rightarrow> string \<Rightarrow> int \<Rightarrow> 'g \<Rightarrow> py_error + (melody_result \<times> 'g)" where
  "convert_lyrics_to_melody R lyrics genre tempo_bpm g =
     (let ls = lyric_lines lyrics;
          arc = map line_emotion ls;
          scale_name = convert_scale_name arc;
          (root_note, g1) = random_choice R [60, 62, 64, 67] g
      in case map_of scales scale_name of
           None \<Rightarrow> Inl KeyError
         | Some scale_notes \<Rightarrow>
             (case convert_line_loop R arc root_note scale_notes tempo_bpm (enumerate 0 ls)
                     ([], 0, g1) of
                Inl e \<Rightarrow> Inl e
              | Inr (phrase_list, current_beat, g2) \<Rightarrow>
                  Inr (\<lparr>r_lyrics = lyrics, r_key = root_note, r_scale = scale_name,
                        r_tempo = tempo_bpm, melody_lines = phrase_list,
                        r_total_duration = current_beat,
                        r_note_count = sum_list (map (\<lambda>p. length (p_notes p)) phrase_list),
                        r_emotional_arc = arc\<rparr>, g2)))"

section \<open>Timing predicates, example sources and the velocity rule\<close>

text \<open>Notes whose timestamps start at \<open>t\<close> and advance by each note's own duration.\<close>

fun advancing_from :: "rat \<Rightarrow> MelodyNote list \<Rightarrow> bool" where
  "advancing_from t [] = True"
| "advancing_from t (n # ns) = (timestamp n = t \<and> advancing_from (t + fval (duration n)) ns)"

text \<open>Phrases that start at \<open>t\<close>, each where the one before it ends.\<close>

fun phrases_from :: "rat \<Rightarrow> MelodyPhrase list \<Rightarrow> bool" where
  "phrases_from t [] = True"
| "phrases_from t (p # ps) =
     (start_time p = t \<and> advancing_from t (phrase_notes p)
      \<and> phrases_from (t + phrase_duration p) ps)"

abbreviation durations :: "MelodyNote list \<Rightarrow> rat" where
  "durations ns \<equiv> sum_list (map (\<lambda>note. fval (duration note)) ns)"

text \<open>A random source for the examples: the \<open>k\<close>-th raw draw is \<open>k\<close>, every normal
  deviate is 0.\<close>

definition example_source :: "nat random_source" where
  "example_source = \<lparr>next_index = (\<lambda>k. (k, Suc k)), next_normal = (\<lambda>k. (0, Suc k))\<rparr>"



text \<open>The velocity of a note in the words of the specification: 90 for a stressed and 70
  for an unstressed syllable, plus the truncated product of the magnitude of the word's
  emotion weight and 20, clamped to [40, 127].\<close>

definition velocity_spec :: "bool \<Rightarrow> rat \<Rightarrow> int" where
  "velocity_spec stressed weight =
     max 40 (min 127 ((if stressed then 90 else 70) + py_int (\<bar>weight\<bar> * 20)))"

section \<open>Quantization to the scale\<close>

lemma index_less: "v \<in> set xs \<Longrightarrow> index xs v < length xs"
  by (induction xs) auto

lemma nth_index: "v \<in> set xs \<Longrightarrow> xs ! index xs v = v"
  by (induction xs) auto

lemma index_first: "j < index xs v \<Longrightarrow> xs ! j \<noteq> v"
proof (induction xs arbitrary: j)
  case Nil
  then show ?case by simp
next
  case (Cons x xs)
  then show ?case by (cases j) (auto split: if_splits)
qed

lemma constrain_to_scale_member:
  "d \<in> set sn \<Longrightarrow> constrain_to_scale sn d = Inr d"
  by (simp add: constrain_to_scale_def)

lemma constrain_to_scale_nearest:
  assumes "d \<notin> set sn" and "sn \<noteq> []"
  shows "\<exists>i < length sn. constrain_to_scale sn d = Inr (sn ! i)
           \<and> (\<forall>j < length sn. \<bar>d - sn ! i\<bar> \<le> \<bar>d - sn ! j\<bar>)
           \<and> (\<forall>j < i. \<bar>d - sn ! i\<bar> < \<bar>d - sn ! j\<bar>)"
proof -
  define ds where "ds = map (\<lambda>note. \<bar>d - note\<bar>) sn"
  define i where "i = index ds (Min (set ds))"
  have ne: "set ds \<noteq> {}" using assms(2) by (simp add: ds_def)
  have mem: "Min (set ds) \<in> set ds" using ne by (intro Min_in) simp_all
  have len: "length ds = length sn" by (simp add: ds_def)
  have i_lt: "i < length sn" using index_less [OF mem] by (simp add: i_def len)
  have at_i: "ds ! i = Min (set ds)" using nth_index [OF mem] by (simp add: i_def)
  have nth_ds: "ds ! j = \<bar>d - sn ! j\<bar>" if "j < length sn" for j
    using that by (simp add: ds_def)
  have res: "constrain_to_scale sn d = Inr (sn ! i)"
    using assms by (simp add: constrain_to_scale_def Let_def i_def ds_def)
  have least: "\<bar>d - sn ! i\<bar> \<le> \<bar>d - sn ! j\<bar>" if "j < length sn" for j
  proof -
    have "ds ! j \<in> set ds" using that len by simp
    then have "Min (set ds) \<le> ds ! j" by (intro Min_le) simp_all
    then show ?thesis using at_i nth_ds [OF that] nth_ds [OF i_lt] by simp
  qed
  have first: "\<bar>d - sn ! i\<bar> < \<bar>d - sn ! j\<bar>" if "j < i" for j
  proof -
    have j_lt: "j < length sn" using that i_lt by simp
    have "ds ! j \<noteq> Min (set ds)" using index_first that by (simp add: i_def)
    then show ?thesis using least [OF j_lt] at_i nth_ds [OF j_lt] nth_ds [OF i_lt] by simp
  qed
  show ?thesis using i_lt res least first by blast
qed

lemma constrain_to_scale_in_scale:
  assumes "constrain_to_scale sn d = Inr sd"
  shows "sd \<in> set sn"
proof (cases "d \<in> set sn")
  case True
  then show ?thesis using assms by (simp add: constrain_to_scale_def)
next
  case False
  with assms have "sn \<noteq> []" by (auto simp: constrain_to_scale_def)
  from constrain_to_scale_nearest [OF False this] assms show ?thesis by auto
qed

lemma constrain_to_scale_returns:
  "sn \<noteq> [] \<Longrightarrow> \<exists>sd. constrain_to_scale sn d = Inr sd"
  by (simp add: constrain_to_scale_def Let_def)

lemma scales_cases:
  assumes "map_of scales name = Some sn"
  shows "sn \<in> {[0, 2, 4, 5, 7, 9, 11], [0, 2, 3, 5, 7, 8, 10], [0, 2, 3, 5, 7, 9, 10],
               [0, 2, 4, 5, 7, 9, 10], [0, 2, 4, 7, 9], [0, 3, 5, 7, 10], [0, 3, 5, 6, 7, 10]}"
  using map_of_SomeD [OF assms] by (auto simp: scales_def)

lemma scales_pitch_classes:
  assumes "map_of scales name = Some sn"
  shows "sn \<noteq> [] \<and> (\<forall>x \<in> set sn. 0 \<le> x \<and> x < 12) \<and> sorted sn \<and> distinct sn \<and> 0 \<in> set sn"
  using scales_cases [OF assms] by auto

section \<open>One syllable, one note\<close>

lemma syllable_step_unfold:
  "syllable_step R wd lw root_note sn t i st cp ct g =
     (case random_choice R [- 1, 0, 1] g of
        (jitter, g') \<Rightarrow>
          (case constrain_to_scale sn
                  ((cp + ((if st then 2 + py_int (word_emotion wd * 2)
                           else - 1 + py_int (word_emotion wd)) + jitter) - root_note) mod 12) of
             Inl e \<Rightarrow> Inl e
           | Inr sd \<Rightarrow>
               if t = 0 then Inl ZeroDivisionError
               else Inr (\<lparr>pitch = root_note + sd +
                            ((cp + ((if st then 2 + py_int (word_emotion wd * 2)
                                     else - 1 + py_int (word_emotion wd)) + jitter) - root_note)
                             div 12) * 12,
                          duration = (if st then NpFloat64 ((3/4 + lw * (1/4)) * (120 / of_int t))
                                      else PyFloat ((1/2) * (120 / of_int t))),
                          velocity = max 40 (min 127 ((if st then 90 else 70)
                                       + py_int (\<bar>word_emotion wd\<bar> * 20))),
                          syllable = (if length (stress_pattern wd) > 1
                                      then word wd @ ''['' @ str_nat i @ '']'' else word wd),
                          timestamp = ct\<rparr>,
                         cp + ((if st then 2 + py_int (word_emotion wd * 2)
                                else - 1 + py_int (word_emotion wd)) + jitter),
                         ct + fval (if st then NpFloat64 ((3/4 + lw * (1/4)) * (120 / of_int t))
                                    else PyFloat ((1/2) * (120 / of_int t))),
                         g')))"
  unfolding syllable_step_def Let_def by (rule refl)

lemma syllable_step_Inr:
  assumes "syllable_step R wd lw root_note sn t i st cp ct g = Inr (note, cp', ct', g')"
  shows "t \<noteq> 0"
    and "cp' = cp + ((if st then 2 + py_int (word_emotion wd * 2) else - 1 + py_int (word_emotion wd))
                     + fst (random_choice R [- 1, 0, 1] g))"
    and "g' = snd (random_choice R [- 1, 0, 1::int] g)"
    and "\<exists>sd. constrain_to_scale sn ((cp' - root_note) mod 12) = Inr sd
              \<and> pitch note = root_note + sd + ((cp' - root_note) div 12) * 12"
    and "velocity note = max 40 (min 127 ((if st then 90 else 70) + py_int (\<bar>word_emotion wd\<bar> * 20)))"
    and "duration note = (if st then NpFloat64 ((3/4 + lw * (1/4)) * (120 / of_int t))
                          else PyFloat ((1/2) * (120 / of_int t)))"
    and "timestamp note = ct"
    and "ct' = ct + fval (duration note)"
    and "syllable note = (if length (stress_pattern wd) > 1
                          then word wd @ ''['' @ str_nat i @ '']'' else word wd)"
proof -
  obtain j g1 where rc: "random_choice R [- 1, 0, 1::int] g = (j, g1)"
    by (cases "random_choice R [- 1, 0, 1::int] g")
  define c where "c = cp + ((if st then 2 + py_int (word_emotion wd * 2) else - 1 + py_int (word_emotion wd)) + j)"
  define dur where "dur = (if st then NpFloat64 ((3/4 + lw * (1/4)) * (120 / of_int t))
                          else PyFloat ((1/2) * (120 / of_int t)))"
  define vel where "vel = max 40 (min 127 ((if st then 90 else 70) + py_int (\<bar>word_emotion wd\<bar> * 20)))"
  define syl where "syl = (if length (stress_pattern wd) > 1
                          then word wd @ ''['' @ str_nat i @ '']'' else word wd)"
  have eq: "syllable_step R wd lw root_note sn t i st cp ct g =
     (case constrain_to_scale sn ((c - root_note) mod 12) of
             Inl e \<Rightarrow> Inl e
           | Inr sd \<Rightarrow>
               if t = 0 then Inl ZeroDivisionError
               else Inr (\<lparr>pitch = root_note + sd + ((c - root_note) div 12) * 12,
                          duration = dur, velocity = vel, syllable = syl, timestamp = ct\<rparr>,
                         c, ct + fval dur, g1))"
    unfolding syllable_step_unfold rc prod.case c_def dur_def vel_def syl_def by (rule refl)
  from assms obtain sd where sd: "constrain_to_scale sn ((c - root_note) mod 12) = Inr sd"
    unfolding eq by (cases "constrain_to_scale sn ((c - root_note) mod 12)") simp_all
  from assms have t: "t \<noteq> 0" unfolding eq sd sum.case by (cases "t = 0") simp_all
  from assms have res:
    "note = \<lparr>pitch = root_note + sd + ((c - root_note) div 12) * 12,
             duration = dur, velocity = vel, syllable = syl, timestamp = ct\<rparr>"
    "cp' = c" "g' = g1" "ct' = ct + fval dur"
    unfolding eq sd sum.case using t by auto
  show "t \<noteq> 0" by (rule t)
  show "cp' = cp + ((if st then 2 + py_int (word_emotion wd * 2) else - 1 + py_int (word_emotion wd))
                     + fst (random_choice R [- 1, 0, 1] g))"
    unfolding res(2) rc c_def by simp
  show "g' = snd (random_choice R [- 1, 0, 1::int] g)" unfolding res(3) rc by simp
  show "\<exists>sd. constrain_to_scale sn ((cp' - root_note) mod 12) = Inr sd
              \<and> pitch note = root_note + sd + ((cp' - root_note) div 12) * 12"
    unfolding res(1,2) using sd by simp
  show "velocity note = max 40 (min 127 ((if st then 90 else 70) + py_int (\<bar>word_emotion wd\<bar> * 20)))"
    unfolding res(1) vel_def by simp
  show "duration note = (if st then NpFloat64 ((3/4 + lw * (1/4)) * (120 / of_int t))
                          else PyFloat ((1/2) * (120 / of_int t)))"
    unfolding res(1) dur_def by simp
  show "timestamp note = ct" unfolding res(1) by simp
  show "ct' = ct + fval (duration note)" unfolding res(1,4) by simp
  show "syllable note = (if length (stress_pattern wd) > 1
                          then word wd @ ''['' @ str_nat i @ '']'' else word wd)"
    unfolding res(1) syl_def by simp
qed

lemma syllable_step_returns:
  assumes "t \<noteq> 0" and "sn \<noteq> []"
  shows "\<exists>note cp' ct' g'. syllable_step R wd lw root_note sn t i st cp ct g = Inr (note, cp', ct', g')"
proof -
  obtain j g1 where rc: "random_choice R [- 1, 0, 1::int] g = (j, g1)"
    by (cases "random_choice R [- 1, 0, 1::int] g")
  define c where "c = cp + ((if st then 2 + py_int (word_emotion wd * 2) else - 1 + py_int (word_emotion wd)) + j)"
  from constrain_to_scale_returns [OF assms(2)]
  obtain sd where sd: "constrain_to_scale sn ((c - root_note) mod 12) = Inr sd" by blast
  show ?thesis
    unfolding syllable_step_unfold rc prod.case sd [unfolded c_def] sum.case using assms(1) by simp
qed

section \<open>The loops over syllables and words\<close>

lemma advancing_from_append:
  "advancing_from t (xs @ ys) = (advancing_from t xs \<and> advancing_from (t + durations xs) ys)"
  by (induction xs arbitrary: t) (auto simp: add.assoc)

lemma advancing_from_nth:
  "advancing_from t ns \<Longrightarrow> j < length ns \<Longrightarrow> timestamp (ns ! j) = t + durations (take j ns)"
proof (induction ns arbitrary: t j)
  case Nil
  then show ?case by simp
next
  case (Cons n ns)
  then show ?case by (cases j) (auto simp: add.assoc)
qed

lemma advancing_from_lower:
  "advancing_from t ns \<Longrightarrow> \<forall>n \<in> set ns. 0 \<le> fval (duration n) \<Longrightarrow> \<forall>n \<in> set ns. t \<le> timestamp n"
proof (induction ns arbitrary: t)
  case Nil
  then show ?case by simp
next
  case (Cons n ns)
  from Cons.prems have "\<forall>m \<in> set ns. t + fval (duration n) \<le> timestamp m"
    by (intro Cons.IH) auto
  with Cons.prems show ?case by fastforce
qed

lemma advancing_from_sorted:
  "advancing_from t ns \<Longrightarrow> \<forall>n \<in> set ns. 0 \<le> fval (duration n) \<Longrightarrow> sorted (map timestamp ns)"
proof (induction ns arbitrary: t)
  case Nil
  then show ?case by simp
next
  case (Cons n ns)
  from Cons.prems have "\<forall>m \<in> set ns. t + fval (duration n) \<le> timestamp m"
    by (intro advancing_from_lower) auto
  moreover from Cons.prems have "sorted (map timestamp ns)"
    by (intro Cons.IH [of "t + fval (duration n)"]) auto
  ultimately show ?case using Cons.prems by fastforce
qed

lemma phrases_from_append:
  "phrases_from t (xs @ ys)
   = (phrases_from t xs \<and> phrases_from (t + sum_list (map phrase_duration xs)) ys)"
  by (induction xs arbitrary: t) (auto simp: add.assoc)

lemma phrases_from_nth:
  "phrases_from t ps \<Longrightarrow> k < length ps \<Longrightarrow>
     start_time (ps ! k) = t + sum_list (map phrase_duration (take k ps))
     \<and> advancing_from (start_time (ps ! k)) (phrase_notes (ps ! k))"
proof (induction ps arbitrary: t k)
  case Nil
  then show ?case by simp
next
  case (Cons p ps)
  then show ?case by (cases k) (auto simp: add.assoc)
qed

lemma syllable_loop_inv:
  assumes "syllable_loop R wd lw root_note sn t xs (cp, ct, ns, g) = Inr (cp', ct', ns', g')"
    and "\<And>i st cp ct g note cp' ct' g'.
           syllable_step R wd lw root_note sn t i st cp ct g = Inr (note, cp', ct', g') \<Longrightarrow> Q note"
  shows "\<exists>new. ns' = ns @ new \<and> length new = length xs \<and> (\<forall>n \<in> set new. Q n)
           \<and> ct' = ct + durations new \<and> advancing_from ct new"
  using assms(1)
proof (induction xs arbitrary: cp ct ns g)
  case Nil
  then show ?case by simp
next
  case (Cons x xs)
  obtain i st where x: "x = (i, st)" by (cases x)
  from Cons.prems obtain nt cp1 ct1 g1 where
    step: "syllable_step R wd lw root_note sn t i st cp ct g = Inr (nt, cp1, ct1, g1)"
    and rest: "syllable_loop R wd lw root_note sn t xs (cp1, ct1, ns @ [nt], g1) = Inr (cp', ct', ns', g')"
    unfolding x by (auto split: sum.splits)
  from Cons.IH [OF rest] obtain new where new:
    "ns' = (ns @ [nt]) @ new" "length new = length xs" "\<forall>n \<in> set new. Q n"
    "ct' = ct1 + durations new" "advancing_from ct1 new" by blast
  have "Q nt" using assms(2) [OF step] .
  moreover have "timestamp nt = ct" "ct1 = ct + fval (duration nt)"
    using syllable_step_Inr(7,8) [OF step] by simp_all
  ultimately show ?case using new
    by (intro exI [of _ "nt # new"]) (simp add: add.assoc)
qed

lemma syllable_loop_returns:
  assumes "t \<noteq> 0" and "sn \<noteq> []"
  shows "\<exists>st'. syllable_loop R wd lw root_note sn t xs st = Inr st'"
proof (induction xs arbitrary: st)
  case Nil
  show ?case by (rule exI [of _ st]) simp
next
  case (Cons x xs)
  obtain i s where x: "x = (i, s)" by (cases x)
  obtain cp ct ns g where st: "st = (cp, ct, ns, g)" by (cases st) auto
  from syllable_step_returns [OF assms, of R wd lw root_note i s cp ct g] obtain nt cp1 ct1 g1 where
    "syllable_step R wd lw root_note sn t i s cp ct g = Inr (nt, cp1, ct1, g1)" by blast
  then show ?case using Cons.IH unfolding x st by simp
qed

lemma word_loop_inv:
  assumes "word_loop R lw root_note sn t wds (cp, ct, ns, g) = Inr (cp', ct', ns', g')"
    and "\<And>wd i st cp ct g nt cp' ct' g'. wd \<in> set wds \<Longrightarrow>
           syllable_step R wd lw root_note sn t i st cp ct g = Inr (nt, cp', ct', g') \<Longrightarrow> Q nt"
  shows "\<exists>new. ns' = ns @ new
           \<and> length new = sum_list (map (\<lambda>wd. length (stress_pattern wd)) wds)
           \<and> (\<forall>n \<in> set new. Q n)
           \<and> ct' = ct + durations new \<and> advancing_from ct new"
  using assms
proof (induction wds arbitrary: cp ct ns g)
  case Nil
  then show ?case by simp
next
  case (Cons wd wds)
  from Cons.prems(1) obtain cp1 ct1 ns1 g1 where
    inner: "syllable_loop R wd lw root_note sn t (enumerate 0 (stress_pattern wd)) (cp, ct, ns, g)
              = Inr (cp1, ct1, ns1, g1)"
    and rest: "word_loop R lw root_note sn t wds (cp1, ct1, ns1, g1) = Inr (cp', ct', ns', g')"
    by (auto split: sum.splits)
  have q1: "\<And>i st cp ct g nt cp' ct' g'.
           syllable_step R wd lw root_note sn t i st cp ct g = Inr (nt, cp', ct', g') \<Longrightarrow> Q nt"
    using Cons.prems(2) [of wd] by simp
  from syllable_loop_inv [where Q = Q, OF inner] q1 obtain new1 where new1:
    "ns1 = ns @ new1" "length new1 = length (stress_pattern wd)" "\<forall>n \<in> set new1. Q n"
    "ct1 = ct + durations new1" "advancing_from ct new1" by auto
  have q2: "\<And>wd' i st cp ct g nt cp' ct' g'. wd' \<in> set wds \<Longrightarrow>
           syllable_step R wd' lw root_note sn t i st cp ct g = Inr (nt, cp', ct', g') \<Longrightarrow> Q nt"
    using Cons.prems(2) by (meson list.set_intros(2))
  from Cons.IH [OF rest] q2 obtain new2 where new2:
    "ns' = ns1 @ new2" "length new2 = sum_list (map (\<lambda>wd. length (stress_pattern wd)) wds)"
    "\<forall>n \<in> set new2. Q n" "ct' = ct1 + durations new2" "advancing_from ct1 new2" by blast
  show ?case using new1 new2
    by (intro exI [of _ "new1 @ new2"]) (auto simp: advancing_from_append add.assoc)
qed

lemma word_loop_returns:
  assumes "t \<noteq> 0" and "sn \<noteq> []"
  shows "\<exists>st'. word_loop R lw root_note sn t wds st = Inr st'"
proof (induction wds arbitrary: st)
  case Nil
  show ?case by (rule exI [of _ st]) simp
next
  case (Cons wd wds)
  from syllable_loop_returns [OF assms, of R wd lw root_note "enumerate 0 (stress_pattern wd)" st] obtain st1 where
    "syllable_loop R wd lw root_note sn t (enumerate 0 (stress_pattern wd)) st = Inr st1" by blast
  then show ?case using Cons.IH by simp
qed

section \<open>Lines and words\<close>

lemma dropWhile_hd: "dropWhile P xs \<noteq> [] \<Longrightarrow> \<not> P (hd (dropWhile P xs))"
  by (induction xs) auto

lemma dropWhile_id: "xs \<noteq> [] \<Longrightarrow> \<not> P (hd xs) \<Longrightarrow> dropWhile P xs = xs"
  by (cases xs) simp_all

lemma strip_nonempty_ends:
  assumes "strip s \<noteq> []"
  shows "\<not> isspace (hd (strip s)) \<and> \<not> isspace (last (strip s))"
proof -
  define a where "a = dropWhile isspace s"
  define b where "b = dropWhile isspace (rev a)"
  have s: "strip s = rev b" by (simp add: strip_def a_def b_def)
  with assms have b: "b \<noteq> []" by simp
  then have "\<not> isspace (hd b)" unfolding b_def by (rule dropWhile_hd)
  then have l: "\<not> isspace (last (strip s))" using b by (simp add: s last_rev)
  have "set b \<subseteq> set a" unfolding b_def using set_dropWhileD by fastforce
  then have a: "a \<noteq> []" using b by auto
  then have ha: "\<not> isspace (hd a)" unfolding a_def by (rule dropWhile_hd)
  obtain pre where pre: "rev a = pre @ b"
    unfolding b_def by (metis takeWhile_dropWhile_id)
  then have "a = rev b @ rev pre" by (metis rev_append rev_rev_ident)
  then have "hd (rev b) = hd a" using b by simp
  then show ?thesis using ha l by (simp add: s)
qed

lemma strip_idem: "strip (strip s) = strip s"
proof (cases "strip s = []")
  case True
  then show ?thesis by (simp add: strip_def [of "[]"])
next
  case False
  from strip_nonempty_ends [OF False]
  have h: "\<not> isspace (hd (strip s))" and l: "\<not> isspace (last (strip s))" by simp_all
  have 1: "dropWhile isspace (strip s) = strip s"
    using False h by (rule dropWhile_id)
  have "rev (strip s) \<noteq> []" using False by simp
  moreover have "\<not> isspace (hd (rev (strip s)))" using False l by (simp add: hd_rev)
  ultimately have 2: "dropWhile isspace (rev (strip s)) = rev (strip s)"
    by (rule dropWhile_id)
  show ?thesis
    by (subst (1) strip_def) (simp only: 1 2 rev_rev_ident)
qed

lemma lyric_lines_stripped:
  assumes "l \<in> set (lyric_lines s)"
  shows "strip l = l" and "l \<noteq> []"
  using assms by (auto simp: lyric_lines_def strip_idem)

lemma lyric_lines_filter:
  "filter (\<lambda>l. strip l \<noteq> []) (lyric_lines s) = lyric_lines s"
proof (rule filter_True, rule ballI)
  fix l
  assume "l \<in> set (lyric_lines s)"
  from lyric_lines_stripped [OF this] show "strip l \<noteq> []" by simp
qed

lemma runs_empty_iff: "runs P cur s = [] \<longleftrightarrow> cur = [] \<and> (\<forall>c \<in> set s. \<not> P c)"
  by (induction s arbitrary: cur) auto

lemma isspace_lower_char: "isspace (lower_char c) = isspace c"
proof -
  have "(of_char c :: nat) < 256" by simp
  then show ?thesis
    unfolding isspace_def lower_char_def Let_def
    by (auto simp: of_char_of)
qed

lemma strip_empty_iff: "strip s = [] \<longleftrightarrow> (\<forall>c \<in> set s. isspace c)"
proof
  assume "strip s = []"
  then have "\<forall>x \<in> set (dropWhile isspace s). isspace x"
    by (simp add: strip_def dropWhile_eq_Nil_conv)
  then have "dropWhile isspace s = []"
    using dropWhile_hd [of isspace s] by (cases "dropWhile isspace s") auto
  then show "\<forall>c \<in> set s. isspace c" by (simp add: dropWhile_eq_Nil_conv)
next
  assume "\<forall>c \<in> set s. isspace c"
  then have d: "dropWhile isspace s = []" by (induction s) auto
  show "strip s = []" unfolding strip_def d by simp
qed

lemma split_ws_lyric_line:
  assumes "l \<in> set (lyric_lines s)"
  shows "split_ws (lower l) \<noteq> []"
proof -
  from lyric_lines_stripped [OF assms] have "strip l \<noteq> []" by simp
  then obtain c where "c \<in> set l" "\<not> isspace c" by (auto simp: strip_empty_iff)
  then have "lower_char c \<in> set (lower l)" "\<not> isspace (lower_char c)"
    by (simp_all add: lower_def isspace_lower_char)
  then show ?thesis unfolding split_ws_def runs_empty_iff by blast
qed

section \<open>Emotion weights and phrases\<close>

lemma get_emotion_weight_bounds: "- (4/5) \<le> get_emotion_weight w \<and> get_emotion_weight w \<le> 9/10"
proof (cases "map_of emotion_weights w")
  case None
  then show ?thesis by (simp add: get_emotion_weight_def)
next
  case (Some x)
  from map_of_SomeD [OF Some] have "- (4/5) \<le> x \<and> x \<le> 9/10"
    by (auto simp: emotion_weights_def)
  then show ?thesis by (simp add: get_emotion_weight_def Some)
qed

lemma sum_list_lower: "\<forall>x \<in> set xs. a \<le> x \<Longrightarrow> of_nat (length xs) * a \<le> sum_list (xs :: rat list)"
  by (induction xs) (auto simp: algebra_simps)

lemma np_mean_lower:
  assumes "xs \<noteq> []" and "\<forall>x \<in> set xs. a \<le> x"
  shows "a \<le> np_mean xs"
proof -
  have n: "0 < (of_nat (length xs) :: rat)" using assms(1) by simp
  from sum_list_lower [OF assms(2)] have "a * of_nat (length xs) \<le> sum_list xs"
    by (simp add: mult.commute)
  then show ?thesis unfolding np_mean_def using n by (simp add: pos_le_divide_eq)
qed

lemma line_emotion_lower:
  assumes "l \<in> set (lyric_lines s)"
  shows "- (4/5) \<le> line_emotion l"
  unfolding line_emotion_def
  using split_ws_lyric_line [OF assms] get_emotion_weight_bounds
  by (intro np_mean_lower) auto

subsection \<open>Phrases\<close>

lemma generate_phrase_inv:
  assumes "generate_phrase_from_line R line sd lw root_note name start t g = Inr (ph, g')"
    and "map_of scales name = Some sn"
    and "\<And>wd i st cp ct g nt cp' ct' g'. wd \<in> set sd \<Longrightarrow>
           syllable_step R wd lw root_note sn t i st cp ct g = Inr (nt, cp', ct', g') \<Longrightarrow> Q nt"
  shows "start_time ph = start \<and> lyric_line ph = line \<and> emotion_weight ph = lw
         \<and> advancing_from start (phrase_notes ph) \<and> (\<forall>n \<in> set (phrase_notes ph). Q n)
         \<and> length (phrase_notes ph) = sum_list (map (\<lambda>wd. length (stress_pattern wd)) sd)"
proof -
  from assms(1,2) obtain cp' ct' ns' where
    loop: "word_loop R lw root_note sn t sd (root_note + 12, start, [], g) = Inr (cp', ct', ns', g')"
    and ph: "ph = \<lparr>phrase_notes = ns', start_time = start, emotion_weight = lw, lyric_line = line\<rparr>"
    unfolding generate_phrase_from_line_def by (auto split: sum.splits)
  from word_loop_inv [where Q = Q, OF loop] assms(3) show ?thesis unfolding ph by auto
qed

lemma generate_phrase_returns:
  assumes "map_of scales name = Some sn" and "t \<noteq> 0"
  shows "\<exists>ph g'. generate_phrase_from_line R line sd lw root_note name start t g = Inr (ph, g')"
proof -
  have "sn \<noteq> []" using scales_pitch_classes [OF assms(1)] by simp
  from word_loop_returns [OF assms(2) this, of R lw root_note sd "(root_note + 12, start, [], g)"]
  obtain st' where "word_loop R lw root_note sn t sd (root_note + 12, start, [], g) = Inr st'"
    by blast
  then show ?thesis
    unfolding generate_phrase_from_line_def using assms(1) by (cases st') auto
qed

lemma phrase_loop_inv:
  assumes "phrase_loop R la root_note name t ils (ps, ct, g) = Inr (ps', ct', g')"
    and "map_of scales name = Some sn"
    and "\<And>idx line wd i st cp ct g nt cp' ct' g'.
           (idx, line) \<in> set ils \<Longrightarrow> wd \<in> set (analyze_line_syllables line) \<Longrightarrow>
           syllable_step R wd (emotional_arc la ! idx) root_note sn t i st cp ct g
             = Inr (nt, cp', ct', g') \<Longrightarrow> Q nt"
  shows "\<exists>new. ps' = ps @ new
           \<and> map lyric_line new = filter (\<lambda>l. strip l \<noteq> []) (map snd ils)
           \<and> phrases_from ct new
           \<and> ct' = ct + sum_list (map phrase_duration new)
           \<and> (\<forall>p \<in> set new. \<forall>n \<in> set (phrase_notes p). Q n)"
  using assms(1,3)
proof (induction ils arbitrary: ps ct g)
  case Nil
  then show ?case by simp
next
  case (Cons il ils)
  obtain idx line where il: "il = (idx, line)" by (cases il)
  show ?case
  proof (cases "strip line = []")
    case True
    with Cons.prems(1) have
      "phrase_loop R la root_note name t ils (ps, ct, g) = Inr (ps', ct', g')"
      unfolding il by simp
    from Cons.IH [OF this] Cons.prems(2) obtain new where
      "ps' = ps @ new" "map lyric_line new = filter (\<lambda>l. strip l \<noteq> []) (map snd ils)"
      "phrases_from ct new" "ct' = ct + sum_list (map phrase_duration new)"
      "\<forall>p \<in> set new. \<forall>n \<in> set (phrase_notes p). Q n"
      by (metis list.set_intros(2))
    then show ?thesis using True unfolding il by auto
  next
    case False
    with Cons.prems(1) obtain ph g1 where
      gen: "generate_phrase_from_line R line (analyze_line_syllables line)
              (emotional_arc la ! idx) root_note name ct t g = Inr (ph, g1)"
      and rest: "phrase_loop R la root_note name t ils
              (ps @ [ph], ct + phrase_duration ph, g1) = Inr (ps', ct', g')"
      unfolding il by (auto split: sum.splits)
    have q1: "\<And>wd i st cp ct g nt cp' ct' g'. wd \<in> set (analyze_line_syllables line) \<Longrightarrow>
           syllable_step R wd (emotional_arc la ! idx) root_note sn t i st cp ct g
             = Inr (nt, cp', ct', g') \<Longrightarrow> Q nt"
      using Cons.prems(2) [of idx line] unfolding il by simp
    from generate_phrase_inv [where Q = Q, OF gen assms(2)] q1
    have ph: "start_time ph = ct" "lyric_line ph = line"
      "advancing_from ct (phrase_notes ph)" "\<forall>n \<in> set (phrase_notes ph). Q n"
      by simp_all
    from Cons.IH [OF rest] Cons.prems(2) obtain new where new:
      "ps' = (ps @ [ph]) @ new" "map lyric_line new = filter (\<lambda>l. strip l \<noteq> []) (map snd ils)"
      "phrases_from (ct + phrase_duration ph) new"
      "ct' = (ct + phrase_duration ph) + sum_list (map phrase_duration new)"
      "\<forall>p \<in> set new. \<forall>n \<in> set (phrase_notes p). Q n"
      by (metis list.set_intros(2))
    show ?thesis using ph new False unfolding il
      by (intro exI [of _ "ph # new"]) (simp add: add.assoc)
  qed
qed

lemma phrase_loop_returns:
  assumes "map_of scales name = Some sn" and "t \<noteq> 0"
  shows "\<exists>st'. phrase_loop R la root_note name t ils st = Inr st'"
proof (induction ils arbitrary: st)
  case Nil
  show ?case by (rule exI [of _ st]) simp
next
  case (Cons il ils)
  obtain idx line where il: "il = (idx, line)" by (cases il)
  obtain ps ct g where st: "st = (ps, ct, g)" by (cases st) auto
  show ?case
  proof (cases "strip line = []")
    case True
    then show ?thesis using Cons.IH unfolding il st by simp
  next
    case False
    from generate_phrase_returns [OF assms, of R line "analyze_line_syllables line"
        "emotional_arc la ! idx" root_note ct g]
    obtain ph g1 where
      "generate_phrase_from_line R line (analyze_line_syllables line)
              (emotional_arc la ! idx) root_note name ct t g = Inr (ph, g1)" by blast
    then show ?thesis using False Cons.IH unfolding il st by simp
  qed
qed

section \<open>The melody\<close>

lemma emotion_mappings_scale:
  assumes "map_of emotion_mappings k = Some cfg"
  shows "mood_scale cfg \<in> {''major'', ''minor'', ''mixolydian'', ''pentatonic_major'', ''dorian''}"
  using map_of_SomeD [OF assms] by (auto simp: emotion_mappings_def)

lemma scales_known:
  "name \<in> {''major'', ''minor'', ''mixolydian'', ''pentatonic_major'', ''dorian''}
   \<Longrightarrow> \<exists>sn. map_of scales name = Some sn"
  by (auto simp: scales_def)

lemma determine_key_and_scale_table:
  "\<exists>sn. map_of scales (snd (fst (determine_key_and_scale R arc mood g))) = Some sn"
proof -
  define avg where "avg = (if arc \<noteq> [] then np_mean arc else 0)"
  define name where "name =
            (case map_of emotion_mappings (lower mood) of
               Some cfg \<Rightarrow> mood_scale cfg
             | None \<Rightarrow>
                 if avg > 3/10 then ''major''
                 else if avg < - (3/10) then ''minor''
                 else ''dorian'')"
  have 1: "snd (fst (determine_key_and_scale R arc mood g)) = name"
    unfolding determine_key_and_scale_def Let_def name_def avg_def
    by (simp split: prod.splits)
  have "name \<in> {''major'', ''minor'', ''mixolydian'', ''pentatonic_major'', ''dorian''}"
    unfolding name_def using emotion_mappings_scale [of "lower mood"]
    by (auto split: option.splits)
  from scales_known [OF this] show ?thesis unfolding 1 .
qed

lemma generate_melody_unfold:
  "generate_melody_from_lyrics R lyrics genre mood t g =
     (case determine_key_and_scale R (map line_emotion (lyric_lines lyrics)) mood g of
        ((root_note, name), g1) \<Rightarrow>
          (case phrase_loop R (analyze_lyrics_structure lyrics) root_note name t
                  (enumerate 0 (lyric_lines lyrics)) ([], 0, g1) of
             Inl e \<Rightarrow> Inl e
           | Inr (ps, ct, g2) \<Rightarrow>
               Inr (\<lparr>phrases = ps,
                     audio_features = generate_audio_features genre mood t root_note name,
                     lyric_structure = analyze_lyrics_structure lyrics,
                     total_duration = ct,
                     note_count = sum_list (map (\<lambda>phrase. length (phrase_notes phrase)) ps)\<rparr>,
                    g2)))"
  unfolding generate_melody_from_lyrics_def Let_def
  by (simp add: analyze_lyrics_structure_def Let_def split: prod.splits)

lemma arc_nth:
  assumes "(idx, line) \<in> set (enumerate 0 (lyric_lines lyrics))"
  shows "emotional_arc (analyze_lyrics_structure lyrics) ! idx = line_emotion line"
    and "line \<in> set (lyric_lines lyrics)"
  using assms by (auto simp: in_set_enumerate_eq analyze_lyrics_structure_def Let_def)

text \<open>What a run of the melody generator that returns has computed.\<close>

lemma generate_melody_inv:
  assumes "generate_melody_from_lyrics R lyrics genre mood t g = Inr (m, g')"
    and "determine_key_and_scale R (map line_emotion (lyric_lines lyrics)) mood g
           = ((root_note, name), g1)"
    and "map_of scales name = Some sn"
    and "\<And>line wd i st cp ct g nt cp' ct' g'.
           line \<in> set (lyric_lines lyrics) \<Longrightarrow> wd \<in> set (analyze_line_syllables line) \<Longrightarrow>
           syllable_step R wd (line_emotion line) root_note sn t i st cp ct g
             = Inr (nt, cp', ct', g') \<Longrightarrow> Q nt"
  shows "map lyric_line (phrases m) = lyric_lines lyrics
         \<and> phrases_from 0 (phrases m)
         \<and> total_duration m = sum_list (map phrase_duration (phrases m))
         \<and> (\<forall>p \<in> set (phrases m). \<forall>n \<in> set (phrase_notes p). Q n)
         \<and> note_count m = sum_list (map (\<lambda>p. length (phrase_notes p)) (phrases m))
         \<and> audio_features m = generate_audio_features genre mood t root_note name
         \<and> lyric_structure m = analyze_lyrics_structure lyrics"
proof -
  from assms(1,2) obtain ps ct where
    loop: "phrase_loop R (analyze_lyrics_structure lyrics) root_note name t
             (enumerate 0 (lyric_lines lyrics)) ([], 0, g1) = Inr (ps, ct, g')"
    and m: "m = \<lparr>phrases = ps,
                 audio_features = generate_audio_features genre mood t root_note name,
                 lyric_structure = analyze_lyrics_structure lyrics,
                 total_duration = ct,
                 note_count = sum_list (map (\<lambda>phrase. length (phrase_notes phrase)) ps)\<rparr>"
    unfolding generate_melody_unfold by (auto split: sum.splits)
  have q: "\<And>idx line wd i st cp ct g nt cp' ct' g'.
           (idx, line) \<in> set (enumerate 0 (lyric_lines lyrics)) \<Longrightarrow>
           wd \<in> set (analyze_line_syllables line) \<Longrightarrow>
           syllable_step R wd (emotional_arc (analyze_lyrics_structure lyrics) ! idx)
             root_note sn t i st cp ct g = Inr (nt, cp', ct', g') \<Longrightarrow> Q nt"
    using assms(4) arc_nth by metis
  from phrase_loop_inv [where Q = Q, OF loop assms(3)] q
  obtain new where "ps = [] @ new"
    "map lyric_line new = filter (\<lambda>l. strip l \<noteq> []) (map snd (enumerate 0 (lyric_lines lyrics)))"
    "phrases_from 0 new" "ct = 0 + sum_list (map phrase_duration new)"
    "\<forall>p \<in> set new. \<forall>n \<in> set (phrase_notes p). Q n"
    by blast
  then show ?thesis unfolding m by (simp add: lyric_lines_filter)
qed

lemma generate_melody_returns:
  assumes "t \<noteq> 0"
  shows "\<exists>m g'. generate_melody_from_lyrics R lyrics genre mood t g = Inr (m, g')"
proof -
  obtain root_note name g1 where
    d: "determine_key_and_scale R (map line_emotion (lyric_lines lyrics)) mood g
           = ((root_note, name), g1)"
    by (metis surj_pair)
  from determine_key_and_scale_table [of R "map line_emotion (lyric_lines lyrics)" mood g]
  obtain sn where sn: "map_of scales name = Some sn" unfolding d by auto
  from phrase_loop_returns [OF sn assms, of R "analyze_lyrics_structure lyrics" root_note
      "enumerate 0 (lyric_lines lyrics)" "([], 0, g1)"]
  obtain st' where "phrase_loop R (analyze_lyrics_structure lyrics) root_note name t
             (enumerate 0 (lyric_lines lyrics)) ([], 0, g1) = Inr st'" by blast
  then show ?thesis unfolding generate_melody_unfold d by (cases st') auto
qed

section \<open>Notes: velocity, duration, timing\<close>

lemma analyze_line_syllables_emotion:
  "wd \<in> set (analyze_line_syllables line) \<Longrightarrow> word_emotion wd = get_emotion_weight (word wd)"
  by (auto simp: analyze_line_syllables_def analyze_word_def)

lemma py_int_nonneg: "0 \<le> x \<Longrightarrow> 0 \<le> py_int x"
  by (simp add: py_int_def)

lemma map_snd_enumerate: "map (\<lambda>x. f (snd x)) (enumerate k xs) = map f xs"
  by (induction xs arbitrary: k) simp_all

lemma syllable_loop_velocities:
  assumes "syllable_loop R wd lw root_note sn t xs (cp, ct, ns, g) = Inr (cp', ct', ns', g')"
  shows "map velocity ns'
           = map velocity ns @ map (\<lambda>x. velocity_spec (snd x) (word_emotion wd)) xs"
  using assms
proof (induction xs arbitrary: cp ct ns g)
  case Nil
  then show ?case by simp
next
  case (Cons x xs)
  obtain i st where x: "x = (i, st)" by (cases x)
  from Cons.prems obtain nt cp1 ct1 g1 where
    step: "syllable_step R wd lw root_note sn t i st cp ct g = Inr (nt, cp1, ct1, g1)"
    and rest: "syllable_loop R wd lw root_note sn t xs (cp1, ct1, ns @ [nt], g1)
                 = Inr (cp', ct', ns', g')"
    unfolding x by (auto split: sum.splits)
  have "velocity nt = velocity_spec st (word_emotion wd)"
    unfolding velocity_spec_def by (rule syllable_step_Inr(5) [OF step])
  with Cons.IH [OF rest] show ?case unfolding x by simp
qed

lemma word_loop_velocities:
  assumes "word_loop R lw root_note sn t wds (cp, ct, ns, g) = Inr (cp', ct', ns', g')"
  shows "map velocity ns'
           = map velocity ns
             @ concat (map (\<lambda>wd. map (\<lambda>stressed. velocity_spec stressed (word_emotion wd))
                                   (stress_pattern wd)) wds)"
  using assms
proof (induction wds arbitrary: cp ct ns g)
  case Nil
  then show ?case by simp
next
  case (Cons wd wds)
  from Cons.prems obtain cp1 ct1 ns1 g1 where
    inner: "syllable_loop R wd lw root_note sn t (enumerate 0 (stress_pattern wd)) (cp, ct, ns, g)
              = Inr (cp1, ct1, ns1, g1)"
    and rest: "word_loop R lw root_note sn t wds (cp1, ct1, ns1, g1) = Inr (cp', ct', ns', g')"
    by (auto split: sum.splits)
  have "map velocity ns1
          = map velocity ns @ map (\<lambda>stressed. velocity_spec stressed (word_emotion wd))
                                (stress_pattern wd)"
    using syllable_loop_velocities [OF inner]
      map_snd_enumerate [of "\<lambda>stressed. velocity_spec stressed (word_emotion wd)" 0
        "stress_pattern wd"]
    by simp
  with Cons.IH [OF rest] show ?case by simp
qed

lemma analyze_line_syllables_velocities:
  "concat (map (\<lambda>wd. map (\<lambda>stressed. velocity_spec stressed (word_emotion wd))
                        (stress_pattern wd)) (analyze_line_syllables line))
   = concat (map (\<lambda>w. map (\<lambda>stressed. velocity_spec stressed (get_emotion_weight w))
                         (default_stress (count_syllables w))) (split_ws (lower line)))"
  by (simp add: analyze_line_syllables_def analyze_word_def comp_def)

lemma generate_phrase_velocities:
  assumes "generate_phrase_from_line R line (analyze_line_syllables line) lw root_note name
             start t g = Inr (ph, g')"
  shows "map velocity (phrase_notes ph)
         = concat (map (\<lambda>w. map (\<lambda>stressed. velocity_spec stressed (get_emotion_weight w))
                               (default_stress (count_syllables w)))
                     (split_ws (lower (lyric_line ph))))"
proof -
  from assms obtain sn cp' ct' ns' where
    loop: "word_loop R lw root_note sn t (analyze_line_syllables line)
             (root_note + 12, start, [], g) = Inr (cp', ct', ns', g')"
    and ph: "ph = \<lparr>phrase_notes = ns', start_time = start, emotion_weight = lw,
                   lyric_line = line\<rparr>"
    unfolding generate_phrase_from_line_def by (auto split: option.splits sum.splits)
  from word_loop_velocities [OF loop] show ?thesis
    unfolding ph analyze_line_syllables_velocities by simp
qed

lemma phrase_loop_velocities:
  assumes "phrase_loop R la root_note name t ils (ps, ct, g) = Inr (ps', ct', g')"
    and "\<forall>p \<in> set ps. map velocity (phrase_notes p)
         = concat (map (\<lambda>w. map (\<lambda>stressed. velocity_spec stressed (get_emotion_weight w))
                               (default_stress (count_syllables w)))
                     (split_ws (lower (lyric_line p))))"
  shows "\<forall>p \<in> set ps'. map velocity (phrase_notes p)
         = concat (map (\<lambda>w. map (\<lambda>stressed. velocity_spec stressed (get_emotion_weight w))
                               (default_stress (count_syllables w)))
                     (split_ws (lower (lyric_line p))))"
  using assms
proof (induction ils arbitrary: ps ct g)
  case Nil
  then show ?case by simp
next
  case (Cons il ils)
  obtain idx line where il: "il = (idx, line)" by (cases il)
  show ?case
  proof (cases "strip line = []")
    case True
    with Cons.prems(1) have
      "phrase_loop R la root_note name t ils (ps, ct, g) = Inr (ps', ct', g')"
      unfolding il by simp
    from Cons.IH [OF this Cons.prems(2)] show ?thesis .
  next
    case False
    with Cons.prems(1) obtain ph g1 where
      gen: "generate_phrase_from_line R line (analyze_line_syllables line)
              (emotional_arc la ! idx) root_note name ct t g = Inr (ph, g1)"
      and rest: "phrase_loop R la root_note name t ils
                   (ps @ [ph], ct + phrase_duration ph, g1) = Inr (ps', ct', g')"
      unfolding il by (auto split: sum.splits)
    have "\<forall>p \<in> set (ps @ [ph]). map velocity (phrase_notes p)
         = concat (map (\<lambda>w. map (\<lambda>stressed. velocity_spec stressed (get_emotion_weight w))
                               (default_stress (count_syllables w)))
                     (split_ws (lower (lyric_line p))))"
      using Cons.prems(2) generate_phrase_velocities [OF gen] by simp
    from Cons.IH [OF rest this] show ?thesis .
  qed
qed

lemma generate_melody_velocities:
  assumes "generate_melody_from_lyrics R lyrics genre mood t g = Inr (m, g')"
  shows "\<forall>p \<in> set (phrases m). map velocity (phrase_notes p)
         = concat (map (\<lambda>w. map (\<lambda>stressed. velocity_spec stressed (get_emotion_weight w))
                               (default_stress (count_syllables w)))
                     (split_ws (lower (lyric_line p))))"
proof -
  obtain root_note name g1 where
    d: "determine_key_and_scale R (map line_emotion (lyric_lines lyrics)) mood g
           = ((root_note, name), g1)"
    by (metis surj_pair)
  from assms obtain ps ct where
    loop: "phrase_loop R (analyze_lyrics_structure lyrics) root_note name t
             (enumerate 0 (lyric_lines lyrics)) ([], 0, g1) = Inr (ps, ct, g')"
    and m: "phrases m = ps"
    unfolding generate_melody_unfold d by (auto split: sum.splits)
  from phrase_loop_velocities [OF loop] show ?thesis unfolding m by simp
qed

lemma velocity_spec_bounds: "40 \<le> velocity_spec stressed w" "velocity_spec stressed w \<le> 127"
  by (simp_all add: velocity_spec_def)

lemma note_durations_positive:
  assumes "0 < t"
  shows "\<exists>m g'. generate_melody_from_lyrics R lyrics genre mood t g = Inr (m, g')
     \<and> (\<forall>p \<in> set (phrases m). \<forall>n \<in> set (phrase_notes p). 0 < fval (duration n))"
proof -
  from assms have t: "t \<noteq> 0" by simp
  from generate_melody_returns [OF t, of R lyrics genre mood g]
  obtain m g' where gen: "generate_melody_from_lyrics R lyrics genre mood t g = Inr (m, g')"
    by blast
  obtain root_note name g1 where
    d: "determine_key_and_scale R (map line_emotion (lyric_lines lyrics)) mood g
           = ((root_note, name), g1)"
    by (metis surj_pair)
  from determine_key_and_scale_table [of R "map line_emotion (lyric_lines lyrics)" mood g]
  obtain sn where sn: "map_of scales name = Some sn" unfolding d by auto
  have step: "0 < fval (duration nt)"
    if line: "line \<in> set (lyric_lines lyrics)"
      and s: "syllable_step R wd (line_emotion line) root_note sn t i st cp ct g0
             = Inr (nt, cp', ct', g0')"
    for line wd i st cp ct g0 nt cp' ct' g0'
  proof -
    have lw: "- (4/5) \<le> line_emotion line" by (rule line_emotion_lower [OF line])
    have pos: "0 < 120 / (of_int t :: rat)" using assms by simp
    have "0 < 3/4 + line_emotion line * (1/4)" using lw by simp
    then have "0 < (3/4 + line_emotion line * (1/4)) * (120 / of_int t)"
      using pos by (rule mult_pos_pos)
    moreover have "0 < (1/2) * (120 / (of_int t :: rat))" using pos by simp
    ultimately show ?thesis
      unfolding syllable_step_Inr(6) [OF s] by (cases st) simp_all
  qed
  from generate_melody_inv [where Q = "\<lambda>n::MelodyNote. 0 < fval (duration n)", OF gen d sn] step
  have "\<forall>p \<in> set (phrases m). \<forall>n \<in> set (phrase_notes p). 0 < fval (duration n)" by blast
  with gen show ?thesis by blast
qed

text \<open>
  Claim C6. With a positive tempo the melody generator returns, and the velocities of the
  notes of a phrase are, in order, those of the syllables of the words of its line: for
  each word, for each flag of its stress pattern, 90 if the flag says stressed and 70 if
  not, plus the truncated product of the magnitude of that word's weight in the sentiment
  table and 20, clamped to [40, 127]. So every velocity lies in [40, 127]. Every duration
  is above 0. Durations are exact values here; the statement is for the tempos up to
  \<open>10^300\<close>, where the double \<open>120 / tempo\<close> of the program is a normal number too.
\<close>

theorem note_velocity_and_duration:
  assumes "0 < t" and "t \<le> 10 ^ 300"
  shows "\<exists>m g'. generate_melody_from_lyrics R lyrics genre mood t g = Inr (m, g')
     \<and> (\<forall>p \<in> set (phrases m).
          map velocity (phrase_notes p)
            = concat (map (\<lambda>w. map (\<lambda>stressed. velocity_spec stressed (get_emotion_weight w))
                                  (default_stress (count_syllables w)))
                        (split_ws (lower (lyric_line p))))
          \<and> (\<forall>n \<in> set (phrase_notes p).
                40 \<le> velocity n \<and> velocity n \<le> 127 \<and> 0 < fval (duration n)))"
proof -
  from note_durations_positive [OF assms(1), of R lyrics genre mood g]
  obtain m g' where gen: "generate_melody_from_lyrics R lyrics genre mood t g = Inr (m, g')"
    and durs: "\<forall>p \<in> set (phrases m). \<forall>n \<in> set (phrase_notes p). 0 < fval (duration n)"
    by blast
  note vel = generate_melody_velocities [OF gen]
  have b: "40 \<le> velocity n \<and> velocity n \<le> 127"
    if p: "p \<in> set (phrases m)" and n: "n \<in> set (phrase_notes p)" for p n
  proof -
    from n have "velocity n \<in> set (map velocity (phrase_notes p))" by simp
    then obtain stressed w where "velocity n = velocity_spec stressed w"
      unfolding vel [rule_format, OF p] by auto
    then show ?thesis using velocity_spec_bounds [of stressed w] by simp
  qed
  from gen vel durs b show ?thesis by blast
qed

text \<open>
  Claim C5. With a positive tempo the melody generator returns a melody with one phrase
  per non-blank line, in line order; each phrase starts at the sum of the durations of
  the phrases before it, the total duration is the sum over all phrases, and within a
  phrase the timestamps are non-decreasing, each the phrase's start plus the durations of
  the notes before it.
\<close>

theorem melody_phrase_timing:
  assumes "0 < t"
  shows "\<exists>m g'. generate_melody_from_lyrics R lyrics genre mood t g = Inr (m, g')
     \<and> map lyric_line (phrases m) = lyric_lines lyrics
     \<and> (\<forall>k < length (phrases m).
          start_time (phrases m ! k) = sum_list (map phrase_duration (take k (phrases m))))
     \<and> total_duration m = sum_list (map phrase_duration (phrases m))
     \<and> (\<forall>p \<in> set (phrases m).
          sorted (map timestamp (phrase_notes p))
          \<and> (\<forall>j < length (phrase_notes p).
                timestamp (phrase_notes p ! j)
                = start_time p
                  + sum_list (map (\<lambda>n. fval (duration n)) (take j (phrase_notes p)))))"
proof -
  from note_durations_positive [OF assms, of R lyrics genre mood g]
  obtain m g' where gen: "generate_melody_from_lyrics R lyrics genre mood t g = Inr (m, g')"
    and durs: "\<forall>p \<in> set (phrases m). \<forall>n \<in> set (phrase_notes p). 0 < fval (duration n)"
    by blast
  obtain root_note name g1 where
    d: "determine_key_and_scale R (map line_emotion (lyric_lines lyrics)) mood g
           = ((root_note, name), g1)"
    by (metis surj_pair)
  from determine_key_and_scale_table [of R "map line_emotion (lyric_lines lyrics)" mood g]
  obtain sn where sn: "map_of scales name = Some sn" unfolding d by auto
  from generate_melody_inv [where Q = "\<lambda>n. True", OF gen d sn]
  have lines: "map lyric_line (phrases m) = lyric_lines lyrics"
    and pf: "phrases_from 0 (phrases m)"
    and total: "total_duration m = sum_list (map phrase_duration (phrases m))"
    by simp_all
  have starts: "start_time (phrases m ! k) = sum_list (map phrase_duration (take k (phrases m)))"
    and adv: "advancing_from (start_time (phrases m ! k)) (phrase_notes (phrases m ! k))"
    if "k < length (phrases m)" for k
    using phrases_from_nth [OF pf that] by auto
  have chain: "sorted (map timestamp (phrase_notes p))
          \<and> (\<forall>j < length (phrase_notes p).
                timestamp (phrase_notes p ! j)
                = start_time p
                  + sum_list (map (\<lambda>n. fval (duration n)) (take j (phrase_notes p))))"
    if p: "p \<in> set (phrases m)" for p
  proof -
    from p obtain k where k: "k < length (phrases m)" "phrases m ! k = p"
      by (auto simp: in_set_conv_nth)
    from adv [OF k(1)] have a: "advancing_from (start_time p) (phrase_notes p)"
      unfolding k(2) .
    have nn: "\<forall>n \<in> set (phrase_notes p). 0 \<le> fval (duration n)"
      using durs p by (auto intro: less_imp_le)
    show ?thesis
      using advancing_from_sorted [OF a nn] advancing_from_nth [OF a] by blast
  qed
  show ?thesis using gen lines starts total chain by blast
qed

section \<open>Pitches\<close>

lemma quantized_pitch_class:
  assumes "map_of scales name = Some sn" and "constrain_to_scale sn d = Inr sd"
  shows "(root_note + sd + k * 12 - root_note) mod 12 \<in> set sn"
proof -
  have mem: "sd \<in> set sn" by (rule constrain_to_scale_in_scale [OF assms(2)])
  with scales_pitch_classes [OF assms(1)] have "0 \<le> sd" "sd < 12" by auto
  then have "(root_note + sd + k * 12 - root_note) mod 12 = sd" by simp
  with mem show ?thesis by simp
qed

lemma syllable_step_pitch_class:
  assumes "map_of scales name = Some sn"
    and "syllable_step R wd lw root_note sn t i st cp ct g = Inr (nt, cp', ct', g')"
  shows "(pitch nt - root_note) mod 12 \<in> set sn"
proof -
  from syllable_step_Inr(4) [OF assms(2)] obtain sd where
    "constrain_to_scale sn ((cp' - root_note) mod 12) = Inr sd"
    "pitch nt = root_note + sd + ((cp' - root_note) div 12) * 12" by blast
  then show ?thesis using quantized_pitch_class [OF assms(1)] by simp
qed

subsection \<open>The second variant\<close>

lemma convert_syllable_step_pitch:
  assumes "convert_syllable_step R wd root_note sn t i st cp cb g = Inr (nt, cp', cb', g')"
  shows "cp' = cp + ((if st then 2 + py_int (word_emotion wd * 2) else - 1 + py_int (word_emotion wd))
                     + fst (random_choice R [- 1, 0, 1] g))"
    and "\<exists>sd. constrain_to_scale sn ((cp' - root_note) mod 12) = Inr sd
           \<and> n_pitch nt = root_note + sd + ((cp' - root_note) div 12) * 12"
proof -
  obtain j g1 where rc: "random_choice R [- 1, 0, 1::int] g = (j, g1)"
    by (cases "random_choice R [- 1, 0, 1::int] g")
  define c where "c = cp + ((if st then 2 + py_int (word_emotion wd * 2) else - 1 + py_int (word_emotion wd)) + j)"
  define dur where "dur = (if st then 3/4 else 1/2) * (120 / (of_int t :: rat))"
  define vel where "vel = max 40 (min 127 ((if st then 90 else 70) + py_int (\<bar>word_emotion wd\<bar> * 20)))"
  define syl where "syl = (if length (stress_pattern wd) > 1
                          then word wd @ ''['' @ str_nat i @ '']'' else word wd)"
  have eq: "convert_syllable_step R wd root_note sn t i st cp cb g =
     (case constrain_to_scale sn ((c - root_note) mod 12) of
             Inl e \<Rightarrow> Inl e
           | Inr sd \<Rightarrow>
               if t = 0 then Inl ZeroDivisionError
               else Inr (\<lparr>n_pitch = root_note + sd + ((c - root_note) div 12) * 12,
                          n_duration = dur, n_velocity = vel, n_syllable = syl\<rparr>,
                         c, cb + dur, g1))"
    unfolding convert_syllable_step_def Let_def rc prod.case c_def dur_def vel_def syl_def
    by (rule refl)
  from assms obtain sd where sd: "constrain_to_scale sn ((c - root_note) mod 12) = Inr sd"
    unfolding eq by (cases "constrain_to_scale sn ((c - root_note) mod 12)") simp_all
  from assms have t: "t \<noteq> 0" unfolding eq sd sum.case by (cases "t = 0") simp_all
  from assms have res:
    "nt = \<lparr>n_pitch = root_note + sd + ((c - root_note) div 12) * 12,
             n_duration = dur, n_velocity = vel, n_syllable = syl\<rparr>"
    "cp' = c"
    unfolding eq sd sum.case using t by auto
  show "cp' = cp + ((if st then 2 + py_int (word_emotion wd * 2) else - 1 + py_int (word_emotion wd))
                     + fst (random_choice R [- 1, 0, 1] g))"
    unfolding res(2) rc c_def by simp
  show "\<exists>sd. constrain_to_scale sn ((cp' - root_note) mod 12) = Inr sd
           \<and> n_pitch nt = root_note + sd + ((cp' - root_note) div 12) * 12"
    unfolding res(1,2) using sd by simp
qed

lemma convert_syllable_step_pitch_class:
  assumes "map_of scales name = Some sn"
    and "convert_syllable_step R wd root_note sn t i st cp cb g = Inr (nt, cp', cb', g')"
  shows "(n_pitch nt - root_note) mod 12 \<in> set sn"
proof -
  from convert_syllable_step_pitch(2) [OF assms(2)] obtain sd where
    "constrain_to_scale sn ((cp' - root_note) mod 12) = Inr sd"
    "n_pitch nt = root_note + sd + ((cp' - root_note) div 12) * 12" by blast
  then show ?thesis using quantized_pitch_class [OF assms(1)] by simp
qed

lemma convert_syllable_loop_inv:
  assumes "map_of scales name = Some sn"
    and "convert_syllable_loop R wd root_note sn t xs (cp, cb, ns, g) = Inr (cp', cb', ns', g')"
    and "\<forall>n \<in> set ns. (n_pitch n - root_note) mod 12 \<in> set sn"
  shows "\<forall>n \<in> set ns'. (n_pitch n - root_note) mod 12 \<in> set sn"
  using assms(2,3)
proof (induction xs arbitrary: cp cb ns g)
  case Nil
  then show ?case by simp
next
  case (Cons x xs)
  obtain i st where x: "x = (i, st)" by (cases x)
  from Cons.prems(1) obtain nt cp1 cb1 g1 where
    step: "convert_syllable_step R wd root_note sn t i st cp cb g = Inr (nt, cp1, cb1, g1)"
    and rest: "convert_syllable_loop R wd root_note sn t xs (cp1, cb1, ns @ [nt], g1)
                 = Inr (cp', cb', ns', g')"
    unfolding x by (auto split: sum.splits)
  have "\<forall>n \<in> set (ns @ [nt]). (n_pitch n - root_note) mod 12 \<in> set sn"
    using Cons.prems(2) convert_syllable_step_pitch_class [OF assms(1) step] by simp
  from Cons.IH [OF rest this] show ?case .
qed

lemma convert_word_loop_inv:
  assumes "map_of scales name = Some sn"
    and "convert_word_loop R root_note sn t wds (cp, cb, ns, g) = Inr (cp', cb', ns', g')"
    and "\<forall>n \<in> set ns. (n_pitch n - root_note) mod 12 \<in> set sn"
  shows "\<forall>n \<in> set ns'. (n_pitch n - root_note) mod 12 \<in> set sn"
  using assms(2,3)
proof (induction wds arbitrary: cp cb ns g)
  case Nil
  then show ?case by simp
next
  case (Cons wd wds)
  from Cons.prems(1) obtain cp1 cb1 ns1 g1 where
    inner: "convert_syllable_loop R wd root_note sn t (enumerate 0 (stress_pattern wd))
              (cp, cb, ns, g) = Inr (cp1, cb1, ns1, g1)"
    and rest: "convert_word_loop R root_note sn t wds (cp1, cb1, ns1, g1) = Inr (cp', cb', ns', g')"
    by (auto split: sum.splits)
  from convert_syllable_loop_inv [OF assms(1) inner Cons.prems(2)]
  have "\<forall>n \<in> set ns1. (n_pitch n - root_note) mod 12 \<in> set sn" .
  from Cons.IH [OF rest this] show ?case .
qed

lemma convert_line_loop_inv:
  assumes "map_of scales name = Some sn"
    and "convert_line_loop R arc root_note sn t ils (ps, cb, g) = Inr (ps', cb', g')"
    and "\<forall>p \<in> set ps. \<forall>n \<in> set (p_notes p). (n_pitch n - root_note) mod 12 \<in> set sn"
  shows "\<forall>p \<in> set ps'. \<forall>n \<in> set (p_notes p). (n_pitch n - root_note) mod 12 \<in> set sn"
  using assms(2,3)
proof (induction ils arbitrary: ps cb g)
  case Nil
  then show ?case by simp
next
  case (Cons il ils)
  obtain idx line where il: "il = (idx, line)" by (cases il)
  from Cons.prems(1) obtain cp1 cb1 ns1 g1 where
    wl: "convert_word_loop R root_note sn t (analyze_syllables line)
           (root_note + 12, cb, [], g) = Inr (cp1, cb1, ns1, g1)"
    and rest: "convert_line_loop R arc root_note sn t ils
            (ps @ [\<lparr>p_notes = ns1,
                     start_beat = cb1 - sum_list (map n_duration ns1),
                     p_emotion_weight = arc ! idx,
                     p_stress_pattern = map (\<lambda>n. n_velocity n > 80) ns1\<rparr>], cb1, g1)
            = Inr (ps', cb', g')"
    unfolding il by (auto split: sum.splits)
  from convert_word_loop_inv [OF assms(1) wl]
  have "\<forall>n \<in> set ns1. (n_pitch n - root_note) mod 12 \<in> set sn" by simp
  with Cons.prems(2) have
    "\<forall>p \<in> set (ps @ [\<lparr>p_notes = ns1,
                     start_beat = cb1 - sum_list (map n_duration ns1),
                     p_emotion_weight = arc ! idx,
                     p_stress_pattern = map (\<lambda>n. n_velocity n > 80) ns1\<rparr>]).
       \<forall>n \<in> set (p_notes p). (n_pitch n - root_note) mod 12 \<in> set sn" by auto
  from Cons.IH [OF rest this] show ?case .
qed

lemma convert_pitches_in_scale:
  assumes "convert_lyrics_to_melody R lyrics genre t g = Inr (res, g')"
  shows "\<exists>sn. map_of scales (r_scale res) = Some sn
           \<and> (\<forall>p \<in> set (melody_lines res). \<forall>n \<in> set (p_notes p).
                 (n_pitch n - r_key res) mod 12 \<in> set sn)"
proof -
  obtain root_note g1 where rc: "random_choice R [60, 62, 64, 67::int] g = (root_note, g1)"
    by (cases "random_choice R [60, 62, 64, 67::int] g")
  define name where "name = convert_scale_name (map line_emotion (lyric_lines lyrics))"
  from assms obtain sn where sn: "map_of scales name = Some sn"
    unfolding convert_lyrics_to_melody_def Let_def rc prod.case name_def
    by (auto split: option.splits)
  from assms obtain ps cb where
    loop: "convert_line_loop R (map line_emotion (lyric_lines lyrics)) root_note sn t
             (enumerate 0 (lyric_lines lyrics)) ([], 0, g1) = Inr (ps, cb, g')"
    and res: "r_key res = root_note" "r_scale res = name" "melody_lines res = ps"
    unfolding convert_lyrics_to_melody_def Let_def rc prod.case name_def [symmetric] sn option.case
    by (auto split: sum.splits)
  from convert_line_loop_inv [OF sn loop] show ?thesis unfolding res using sn by simp
qed

lemma constrain_to_scale_spec:
  assumes "map_of scales name = Some sn"
  shows "\<exists>i < length sn. constrain_to_scale sn d = Inr (sn ! i)
            \<and> (d \<in> set sn \<longrightarrow> sn ! i = d)
            \<and> (d \<notin> set sn \<longrightarrow>
                  (\<forall>j < length sn. \<bar>d - sn ! i\<bar> \<le> \<bar>d - sn ! j\<bar>)
                  \<and> (\<forall>j < i. \<bar>d - sn ! i\<bar> < \<bar>d - sn ! j\<bar>))"
proof (cases "d \<in> set sn")
  case True
  then obtain i where "i < length sn" "sn ! i = d" by (auto simp: in_set_conv_nth)
  then show ?thesis using True constrain_to_scale_member [OF True] by auto
next
  case False
  have "sn \<noteq> []" using scales_pitch_classes [OF assms] by simp
  from constrain_to_scale_nearest [OF False this] show ?thesis using False by blast
qed

text \<open>
  Claim C1. In both variants, the pitch of every generated note, taken relative to the
  chosen root modulo 12, is a member of the selected scale. The quantization returns the
  offset itself when it is a member and otherwise the first member, in the scale's
  ascending order, at minimum absolute distance; the pitch is the root plus that member
  plus 12 times the floor quotient by 12 of the cursor's offset before quantization.
\<close>

theorem pitches_in_selected_scale:
  "(\<forall>m g' root_note name g1.
       generate_melody_from_lyrics R lyrics genre mood t g = Inr (m, g') \<longrightarrow>
       determine_key_and_scale R (emotional_arc (analyze_lyrics_structure lyrics)) mood g
         = ((root_note, name), g1) \<longrightarrow>
       (\<exists>sn. map_of scales name = Some sn
          \<and> (\<forall>p \<in> set (phrases m). \<forall>n \<in> set (phrase_notes p).
                (pitch n - root_note) mod 12 \<in> set sn)))
   \<and> (\<forall>res g'.
         convert_lyrics_to_melody R lyrics genre t g = Inr (res, g') \<longrightarrow>
         (\<exists>sn. map_of scales (r_scale res) = Some sn
            \<and> (\<forall>p \<in> set (melody_lines res). \<forall>n \<in> set (p_notes p).
                  (n_pitch n - r_key res) mod 12 \<in> set sn)))
   \<and> (\<forall>name sn d.
         map_of scales name = Some sn \<longrightarrow>
         (\<exists>i < length sn. constrain_to_scale sn d = Inr (sn ! i)
            \<and> (d \<in> set sn \<longrightarrow> sn ! i = d)
            \<and> (d \<notin> set sn \<longrightarrow>
                  (\<forall>j < length sn. \<bar>d - sn ! i\<bar> \<le> \<bar>d - sn ! j\<bar>)
                  \<and> (\<forall>j < i. \<bar>d - sn ! i\<bar> < \<bar>d - sn ! j\<bar>))))
   \<and> (\<forall>wd lw root_note sn i st cp ct g0 nt cp' ct' g0'.
         syllable_step R wd lw root_note sn t i st cp ct g0 = Inr (nt, cp', ct', g0') \<longrightarrow>
         (\<exists>sd. constrain_to_scale sn ((cp' - root_note) mod 12) = Inr sd
            \<and> pitch nt = root_note + sd + ((cp' - root_note) div 12) * 12))
   \<and> (\<forall>wd root_note sn i st cp cb g0 nt cp' cb' g0'.
         convert_syllable_step R wd root_note sn t i st cp cb g0 = Inr (nt, cp', cb', g0') \<longrightarrow>
         (\<exists>sd. constrain_to_scale sn ((cp' - root_note) mod 12) = Inr sd
            \<and> n_pitch nt = root_note + sd + ((cp' - root_note) div 12) * 12))"
proof (intro conjI allI impI)
  fix m g' root_note name g1
  assume gen: "generate_melody_from_lyrics R lyrics genre mood t g = Inr (m, g')"
    and "determine_key_and_scale R (emotional_arc (analyze_lyrics_structure lyrics)) mood g
         = ((root_note, name), g1)"
  then have d: "determine_key_and_scale R (map line_emotion (lyric_lines lyrics)) mood g
         = ((root_note, name), g1)"
    by (simp add: analyze_lyrics_structure_def Let_def)
  from determine_key_and_scale_table [of R "map line_emotion (lyric_lines lyrics)" mood g]
  obtain sn where sn: "map_of scales name = Some sn" unfolding d by auto
  have step: "(pitch nt - root_note) mod 12 \<in> set sn"
    if "syllable_step R wd lw root_note sn t i st cp ct g0 = Inr (nt, cp', ct', g0')"
    for wd lw i st cp ct g0 nt cp' ct' g0'
    using that by (rule syllable_step_pitch_class [OF sn])
  from generate_melody_inv [where Q = "\<lambda>n. (pitch n - root_note) mod 12 \<in> set sn", OF gen d sn]
    step
  have "\<forall>p \<in> set (phrases m). \<forall>n \<in> set (phrase_notes p). (pitch n - root_note) mod 12 \<in> set sn"
    by blast
  with sn show "\<exists>sn. map_of scales name = Some sn
          \<and> (\<forall>p \<in> set (phrases m). \<forall>n \<in> set (phrase_notes p).
                (pitch n - root_note) mod 12 \<in> set sn)" by blast
next
  fix res g'
  assume "convert_lyrics_to_melody R lyrics genre t g = Inr (res, g')"
  then show "\<exists>sn. map_of scales (r_scale res) = Some sn
            \<and> (\<forall>p \<in> set (melody_lines res). \<forall>n \<in> set (p_notes p).
                  (n_pitch n - r_key res) mod 12 \<in> set sn)"
    by (rule convert_pitches_in_scale)
next
  fix name sn d
  assume "map_of scales name = Some sn"
  then show "\<exists>i < length sn. constrain_to_scale sn d = Inr (sn ! i)
            \<and> (d \<in> set sn \<longrightarrow> sn ! i = d)
            \<and> (d \<notin> set sn \<longrightarrow>
                  (\<forall>j < length sn. \<bar>d - sn ! i\<bar> \<le> \<bar>d - sn ! j\<bar>)
                  \<and> (\<forall>j < i. \<bar>d - sn ! i\<bar> < \<bar>d - sn ! j\<bar>))"
    by (rule constrain_to_scale_spec)
next
  fix wd lw root_note sn i st cp ct g0 nt cp' ct' g0'
  assume "syllable_step R wd lw root_note sn t i st cp ct g0 = Inr (nt, cp', ct', g0')"
  then show "\<exists>sd. constrain_to_scale sn ((cp' - root_note) mod 12) = Inr sd
            \<and> pitch nt = root_note + sd + ((cp' - root_note) div 12) * 12"
    by (rule syllable_step_Inr(4))
next
  fix wd root_note sn i st cp cb g0 nt cp' cb' g0'
  assume "convert_syllable_step R wd root_note sn t i st cp cb g0 = Inr (nt, cp', cb', g0')"
  then show "\<exists>sd. constrain_to_scale sn ((cp' - root_note) mod 12) = Inr sd
            \<and> n_pitch nt = root_note + sd + ((cp' - root_note) div 12) * 12"
    by (rule convert_syllable_step_pitch(2))
qed

section \<open>Samples and stress patterns\<close>

lemma contour_points_blocks:
  "length (fst (contour_points R f n g)) = n"
proof (induction n arbitrary: g)
  case 0
  show ?case by simp
next
  case (Suc n)
  obtain v g1 where nn: "next_normal R g = (v, g1)" by (cases "next_normal R g")
  obtain ps g2 where cp: "contour_points R f n g1 = (ps, g2)"
    by (cases "contour_points R f n g1")
  from Suc.IH [of g1] have "length ps = n" by (simp add: cp)
  then show ?case by (simp add: nn cp)
qed

lemma contour_notes_loop_blocks:
  "\<exists>blocks. fst (contour_notes_loop R ns acc g) = acc @ concat blocks
            \<and> map length blocks = map num_points ns"
proof (induction ns arbitrary: acc g)
  case Nil
  show ?case by (rule exI [of _ "[]"]) simp
next
  case (Cons n ns)
  obtain ps g1 where cp: "contour_points R (note_frequency n) (num_points n) g = (ps, g1)"
    by (cases "contour_points R (note_frequency n) (num_points n) g")
  have len: "length ps = num_points n"
    using contour_points_blocks [of R "note_frequency n" "num_points n" g] by (simp add: cp)
  from Cons.IH [of "acc @ ps" g1] obtain blocks where
    "fst (contour_notes_loop R ns (acc @ ps) g1) = (acc @ ps) @ concat blocks"
    "map length blocks = map num_points ns" by blast
  then show ?case using cp len
    by (intro exI [of _ "ps # blocks"]) simp
qed

lemma length_note_dynamics: "length (note_dynamics n) = num_points n"
  by (simp add: note_dynamics_def Let_def)

lemma length_concat_blocks:
  "map length blocks = map f ns \<Longrightarrow> length (concat blocks) = sum_list (map f ns)"
  by (simp add: length_concat)

lemma py_int_floor: "0 \<le> x \<Longrightarrow> py_int x = \<lfloor>x\<rfloor>"
  by (simp add: py_int_def)

text \<open>
  Claim C10. The pitch contour and the dynamics envelope are both made of one block of
  samples per note, in the order of the notes, and the block of a note has
  \<open>max(1, int(duration * 10))\<close> samples in each; so the two lists have the same length
  and are aligned index for index. For a duration that is not negative, \<open>int\<close> is the
  floor.
\<close>

theorem contour_dynamics_aligned:
  "(\<exists>blocks. fst (extract_pitch_contour R m g) = concat blocks
        \<and> map length blocks = map num_points (melody_notes m))
   \<and> generate_dynamics m = concat (map note_dynamics (melody_notes m))
   \<and> map length (map note_dynamics (melody_notes m)) = map num_points (melody_notes m)
   \<and> length (fst (extract_pitch_contour R m g)) = sum_list (map num_points (melody_notes m))
   \<and> length (generate_dynamics m) = sum_list (map num_points (melody_notes m))
   \<and> (\<forall>n. 0 \<le> fval (duration n) \<longrightarrow> num_points n = nat (max 1 \<lfloor>fval (duration n) * 10\<rfloor>))"
proof -
  from contour_notes_loop_blocks [of R "melody_notes m" "[]" g] obtain blocks where
    b: "fst (extract_pitch_contour R m g) = concat blocks"
      "map length blocks = map num_points (melody_notes m)"
    unfolding extract_pitch_contour_def by auto
  have d: "map length (map note_dynamics (melody_notes m)) = map num_points (melody_notes m)"
    by (simp add: length_note_dynamics)
  have 1: "length (fst (extract_pitch_contour R m g)) = sum_list (map num_points (melody_notes m))"
    unfolding b(1) using b(2) by (rule length_concat_blocks)
  have 2: "length (generate_dynamics m) = sum_list (map num_points (melody_notes m))"
    unfolding generate_dynamics_def using d by (rule length_concat_blocks)
  have 3: "num_points n = nat (max 1 \<lfloor>fval (duration n) * 10\<rfloor>)"
    if "0 \<le> fval (duration n)" for n :: MelodyNote
    using that by (simp add: num_points_def py_int_floor)
  show ?thesis using b d 1 2 3 by (auto simp: generate_dynamics_def)
qed

subsection \<open>Stress patterns\<close>

lemma length_default_stress: "length (default_stress n) = n"
  by (simp add: default_stress_def)

lemma stress_patterns_keys:
  assumes "map_of stress_patterns w = Some pat"
  shows "w \<in> {''beautiful'', ''amazing'', ''wonderful'', ''together'', ''forever'',
              ''remember'', ''believe'', ''freedom'', ''sunshine''}"
  using map_of_SomeD [OF assms] by (auto simp: stress_patterns_def)

lemma override_lengths:
  "length (stress_pattern (analyze_syllables_word ''amazing'')) = syllable_count (analyze_syllables_word ''amazing'')"
  "length (stress_pattern (analyze_syllables_word ''wonderful'')) = syllable_count (analyze_syllables_word ''wonderful'')"
  "length (stress_pattern (analyze_syllables_word ''together'')) = syllable_count (analyze_syllables_word ''together'')"
  "length (stress_pattern (analyze_syllables_word ''forever'')) = syllable_count (analyze_syllables_word ''forever'')"
  "length (stress_pattern (analyze_syllables_word ''remember'')) = syllable_count (analyze_syllables_word ''remember'')"
  by code_simp+

text \<open>
  Claim C4, as stated, fails in the variant with the override table: the word beautiful
  has five vowels, so its syllable count is 5, and its stress pattern is the table's
  entry, of length 3.
\<close>

theorem stress_length_counterexample:
  "analyze_syllables ''beautiful'' = [analyze_syllables_word ''beautiful'']
   \<and> syllable_count (analyze_syllables_word ''beautiful'') = 5
   \<and> length (stress_pattern (analyze_syllables_word ''beautiful'')) = 3"
  by code_simp

text \<open>
  Claim C4, amended. In the variant without the table the length of a word's stress
  pattern is its syllable count (the vowel count, at least 1). In the variant with the
  table, a word of the table gets the table's pattern and every other word a pattern as
  long as its syllable count; the lengths differ for the words beautiful, believe, freedom
  and sunshine only.
\<close>

theorem stress_length_unless_overridden:
  "(\<forall>wd \<in> set (analyze_line_syllables line).
      length (stress_pattern wd) = syllable_count wd
      \<and> syllable_count wd = max 1 (length (filter (\<lambda>c. lower_char c \<in> set ''aeiou'') (word wd))))
   \<and> (\<forall>wd \<in> set (analyze_syllables lyric_text).
        syllable_count wd = max 1 (length (filter (\<lambda>c. c \<in> set ''aeiouAEIOU'') (word wd)))
        \<and> (case map_of stress_patterns (word wd) of
              Some pat \<Rightarrow> stress_pattern wd = pat
            | None \<Rightarrow> length (stress_pattern wd) = syllable_count wd)
        \<and> (word wd \<notin> {''beautiful'', ''believe'', ''freedom'', ''sunshine''}
             \<longrightarrow> length (stress_pattern wd) = syllable_count wd))"
proof (intro conjI ballI)
  fix wd
  assume "wd \<in> set (analyze_line_syllables line)"
  then obtain w where wd: "wd = analyze_word w" by (auto simp: analyze_line_syllables_def)
  show "length (stress_pattern wd) = syllable_count wd"
    by (simp add: wd analyze_word_def length_default_stress)
  show "syllable_count wd = max 1 (length (filter (\<lambda>c. lower_char c \<in> set ''aeiou'') (word wd)))"
    by (simp add: wd analyze_word_def count_syllables_def)
next
  fix wd
  assume "wd \<in> set (analyze_syllables lyric_text)"
  then obtain w where wd: "wd = analyze_syllables_word w" by (auto simp: analyze_syllables_def)
  have w: "word wd = w" by (simp add: wd analyze_syllables_word_def Let_def)
  show "syllable_count wd = max 1 (length (filter (\<lambda>c. c \<in> set ''aeiouAEIOU'') (word wd)))"
    by (simp add: wd analyze_syllables_word_def Let_def count_vowels_def)
  show "case map_of stress_patterns (word wd) of
              Some pat \<Rightarrow> stress_pattern wd = pat
            | None \<Rightarrow> length (stress_pattern wd) = syllable_count wd"
    unfolding w by (simp add: wd analyze_syllables_word_def Let_def length_default_stress
        split: option.splits)
  show "word wd \<notin> {''beautiful'', ''believe'', ''freedom'', ''sunshine''}
             \<longrightarrow> length (stress_pattern wd) = syllable_count wd"
  proof
    assume notin: "word wd \<notin> {''beautiful'', ''believe'', ''freedom'', ''sunshine''}"
    show "length (stress_pattern wd) = syllable_count wd"
    proof (cases "map_of stress_patterns w")
      case None
      then show ?thesis
        by (simp add: wd analyze_syllables_word_def Let_def length_default_stress)
    next
      case (Some pat)
      from stress_patterns_keys [OF Some] notin
      have "w \<in> {''amazing'', ''wonderful'', ''together'', ''forever'', ''remember''}"
        unfolding w by auto
      then show ?thesis unfolding wd using override_lengths by auto
    qed
  qed
qed

theorem stress_length_unless_overridden_witness:
  "map (\<lambda>wd. (word wd, syllable_count wd, length (stress_pattern wd)))
       (analyze_syllables ''Amazing grace'')
     = [(''amazing'', 3, 3), (''grace'', 2, 2)]
   \<and> map (\<lambda>wd. (word wd, syllable_count wd, length (stress_pattern wd)))
       (analyze_line_syllables ''Beautiful day'')
     = [(''beautiful'', 5, 5), (''day'', 1, 1)]"
proof -
  have a: "analyze_syllables ''Amazing grace''
           = [analyze_syllables_word ''amazing'', analyze_syllables_word ''grace'']"
    by code_simp
  have b: "map word (analyze_syllables ''Amazing grace'') = [''amazing'', ''grace'']"
    "map syllable_count (analyze_syllables ''Amazing grace'') = [3, 2]"
    "map word (analyze_line_syllables ''Beautiful day'') = [''beautiful'', ''day'']"
    "map syllable_count (analyze_line_syllables ''Beautiful day'') = [5, 1]"
    "analyze_line_syllables ''Beautiful day'' = [analyze_word ''beautiful'', analyze_word ''day'']"
    by code_simp+
  have c: "''amazing'' \<notin> {''beautiful'', ''believe'', ''freedom'', ''sunshine''}"
    "''grace'' \<notin> {''beautiful'', ''believe'', ''freedom'', ''sunshine''}"
    by simp_all
  from stress_length_unless_overridden [of "''Beautiful day''" "''Amazing grace''"]
  have 1: "\<forall>wd \<in> set (analyze_line_syllables ''Beautiful day'').
             length (stress_pattern wd) = syllable_count wd"
    and 2: "\<forall>wd \<in> set (analyze_syllables ''Amazing grace'').
             word wd \<notin> {''beautiful'', ''believe'', ''freedom'', ''sunshine''}
             \<longrightarrow> length (stress_pattern wd) = syllable_count wd"
    by blast+
  show ?thesis using 1 2 a b c by auto
qed

section \<open>Empty lyrics\<close>

lemma lyric_lines_empty: "lyric_lines '''' = []"
  by (simp add: lyric_lines_def strip_def)

lemma phrase_loop_nil: "phrase_loop R la root_note name t [] st = Inr st"
  by simp

lemma generate_melody_empty:
  "\<exists>m g1. generate_melody_from_lyrics R '''' genre mood t g = Inr (m, g1)
      \<and> phrases m = [] \<and> note_count m = 0 \<and> total_duration m = 0"
proof -
  obtain root_note name g1 where
    d: "determine_key_and_scale R (map line_emotion (lyric_lines '''')) mood g
           = ((root_note, name), g1)"
    by (metis surj_pair)
  have e: "enumerate 0 (lyric_lines '''') = []" by (simp add: lyric_lines_empty)
  show ?thesis
    unfolding generate_melody_unfold d prod.case e phrase_loop_nil sum.case
    by simp
qed

lemma vocals_no_notes:
  assumes "phrases m = []"
  shows "generate_vocals_with_melody R lyr m settings sample g = Inl ValueError"
proof -
  have n: "melody_notes m = []" using assms by (simp add: melody_notes_def)
  have 1: "generate_phoneme_timing m = Inr []" by (simp add: generate_phoneme_timing_def n)
  have 2: "extract_pitch_contour R m g = ([], g)" by (simp add: extract_pitch_contour_def n)
  have 3: "generate_dynamics m = []" by (simp add: generate_dynamics_def n)
  have 4: "synthesize_vocal_track m [] [] [] vs sample = Inl ValueError" for vs
    unfolding synthesize_vocal_track_def min_max_def by simp
  show ?thesis
    unfolding generate_vocals_with_melody_def Let_def 1 2 3 sum.case prod.case 4
    by (rule refl)
qed

text \<open>
  Claim C3 fails on the code. For the empty lyric text the melody stage returns a melody
  with no phrase, note count 0 and total duration 0, whatever the genre, mood, tempo and
  random draws; the vocal stage then raises \<open>ValueError\<close>, because \<open>_synthesize_vocal_track\<close> takes
  \<open>min\<close> and \<open>max\<close> of the empty pitch contour, and \<open>generate_song\<close> reports the failure.
\<close>

theorem empty_lyrics_generation_fails:
  "(\<exists>m g1. generate_melody_from_lyrics R '''' genre mood t g = Inr (m, g1)
        \<and> phrases m = [] \<and> note_count m = 0 \<and> total_duration m = 0
        \<and> generate_vocals_with_melody R '''' m settings sample g1 = Inl ValueError)
   \<and> generate_song R (sd\<lparr>sd_lyrics := ''''\<rparr>) g = Inl (GenerationFailed ValueError)"
proof
  from generate_melody_empty [of R genre mood t g] obtain m g1 where
    m: "generate_melody_from_lyrics R '''' genre mood t g = Inr (m, g1)"
      "phrases m = []" "note_count m = 0" "total_duration m = 0" by blast
  from vocals_no_notes [OF m(2), of R "''''" settings sample g1] m
  show "\<exists>m g1. generate_melody_from_lyrics R '''' genre mood t g = Inr (m, g1)
        \<and> phrases m = [] \<and> note_count m = 0 \<and> total_duration m = 0
        \<and> generate_vocals_with_melody R '''' m settings sample g1 = Inl ValueError"
    by blast
next
  obtain tb vs g0 where e: "enhance_song_data R (sd\<lparr>sd_lyrics := ''''\<rparr>) g = ((tb, vs), g0)"
    by (metis surj_pair)
  from generate_melody_empty [of R "sd_genre sd" "sd_mood sd" tb g0] obtain m g1 where
    m: "generate_melody_from_lyrics R '''' (sd_genre sd) (sd_mood sd) tb g0 = Inr (m, g1)"
      "phrases m = []" by blast
  have v: "generate_vocals_with_melody R '''' m (Some vs) (sd_user_voice_sample sd) g1
           = Inl ValueError"
    by (rule vocals_no_notes [OF m(2)])
  have s: "sd_lyrics (sd\<lparr>sd_lyrics := ''''\<rparr>) = ''''"
    "sd_genre (sd\<lparr>sd_lyrics := ''''\<rparr>) = sd_genre sd"
    "sd_mood (sd\<lparr>sd_lyrics := ''''\<rparr>) = sd_mood sd"
    "sd_user_voice_sample (sd\<lparr>sd_lyrics := ''''\<rparr>) = sd_user_voice_sample sd"
    by simp_all
  show "generate_song R (sd\<lparr>sd_lyrics := ''''\<rparr>) g = Inl (GenerationFailed ValueError)"
    unfolding generate_song_def e prod.case s m(1) sum.case v
    by (rule refl)
qed

section \<open>Phoneme timing\<close>

lemma generate_melody_one_line:
  assumes "lyric_lines lyr = [line]" and "t \<noteq> 0"
  shows "\<exists>m g1 root_note sn g0 cp ct.
           generate_melody_from_lyrics R lyr genre mood t g = Inr (m, g1)
           \<and> sn \<noteq> []
           \<and> word_loop R (line_emotion line) root_note sn t (analyze_line_syllables line)
                (root_note + 12, 0, [], g0) = Inr (cp, ct, melody_notes m, g1)"
proof -
  obtain root_note name g0 where
    d: "determine_key_and_scale R (map line_emotion (lyric_lines lyr)) mood g
           = ((root_note, name), g0)"
    by (metis surj_pair)
  from determine_key_and_scale_table [of R "map line_emotion (lyric_lines lyr)" mood g]
  obtain sn where sn: "map_of scales name = Some sn" unfolding d by auto
  have ne: "sn \<noteq> []" using scales_pitch_classes [OF sn] by simp
  from word_loop_returns [OF assms(2) ne, of R "line_emotion line" root_note
      "analyze_line_syllables line" "(root_note + 12, 0, [], g0)"]
  obtain cp ct ns g1 where
    wl: "word_loop R (line_emotion line) root_note sn t (analyze_line_syllables line)
           (root_note + 12, 0, [], g0) = Inr (cp, ct, ns, g1)"
    by (metis prod_cases4)
  have "line \<in> set (lyric_lines lyr)" using assms(1) by simp
  from lyric_lines_stripped [OF this] have st: "strip line \<noteq> []" by simp
  have arc: "emotional_arc (analyze_lyrics_structure lyr) ! 0 = line_emotion line"
    by (simp add: analyze_lyrics_structure_def Let_def assms(1))
  have gp: "generate_phrase_from_line R line (analyze_line_syllables line)
              (line_emotion line) root_note name 0 t g0
            = Inr (\<lparr>phrase_notes = ns, start_time = 0, emotion_weight = line_emotion line,
                     lyric_line = line\<rparr>, g1)"
    unfolding generate_phrase_from_line_def sn option.case wl sum.case prod.case by (rule refl)
  have en: "enumerate 0 (lyric_lines lyr) = [(0, line)]" by (simp add: assms(1))
  have pl: "phrase_loop R (analyze_lyrics_structure lyr) root_note name t
              (enumerate 0 (lyric_lines lyr)) ([], 0, g0)
            = Inr ([\<lparr>phrase_notes = ns, start_time = 0, emotion_weight = line_emotion line,
                      lyric_line = line\<rparr>],
                   phrase_duration \<lparr>phrase_notes = ns, start_time = 0,
                      emotion_weight = line_emotion line, lyric_line = line\<rparr>, g1)"
    unfolding en using st by (simp add: arc gp)
  define m where "m = \<lparr>phrases = [\<lparr>phrase_notes = ns, start_time = 0,
                     emotion_weight = line_emotion line, lyric_line = line\<rparr>],
       audio_features = generate_audio_features genre mood t root_note name,
       lyric_structure = analyze_lyrics_structure lyr,
       total_duration = phrase_duration \<lparr>phrase_notes = ns, start_time = 0,
                      emotion_weight = line_emotion line, lyric_line = line\<rparr>,
       note_count = sum_list (map (\<lambda>phrase. length (phrase_notes phrase))
                      [\<lparr>phrase_notes = ns, start_time = 0,
                        emotion_weight = line_emotion line, lyric_line = line\<rparr>])\<rparr>"
  have gen: "generate_melody_from_lyrics R lyr genre mood t g = Inr (m, g1)"
    unfolding generate_melody_unfold d prod.case pl sum.case m_def by (rule refl)
  have mn: "melody_notes m = ns" by (simp add: melody_notes_def m_def)
  show ?thesis using gen ne wl unfolding mn [symmetric] by blast
qed

lemma chorus_line: "lyric_lines ''[Chorus]'' = [''[Chorus]'']"
  by code_simp

lemma chorus_words:
  "analyze_line_syllables ''[Chorus]''
   = [\<lparr>word = ''[chorus]'', syllable_count = 2, stress_pattern = [True, False],
       word_emotion = 0\<rparr>]"
  by code_simp

lemma bracket_line: "lyric_lines ''['' = [''['']"
  by code_simp

lemma bracket_words:
  "analyze_line_syllables ''[''
   = [\<lparr>word = ''['', syllable_count = 1, stress_pattern = [True], word_emotion = 0\<rparr>]"
  by code_simp

lemma note_phoneme_timing_bracket:
  assumes "strip_index (syllable n) = []"
  shows "note_phoneme_timing n
         = (case duration n of PyFloat d \<Rightarrow> Inl ZeroDivisionError | NpFloat64 d \<Rightarrow> Inr [])"
  unfolding note_phoneme_timing_def Let_def using assms by (simp add: lower_def)

lemma strip_index_bracket: "strip_index (CHR ''['' # s) = []"
  by (simp add: strip_index_def)

lemma str_nat_digits: "str_nat 0 = ''0''" "str_nat (Suc 0) = ''1''"
  by code_simp+

text \<open>
  Claim C2 fails on the code for a syllable label that starts with a bracket. For the lyric
  text \<open>[Chorus]\<close> at tempo 120 the melody has the two notes \<open>[chorus][0]\<close> and \<open>[chorus][1]\<close>,
  both stripped to the empty string: the first, stressed, has a \<open>numpy.float64\<close> duration
  and yields no phoneme event, the second, unstressed, has a Python float duration and the
  division raises \<open>ZeroDivisionError\<close>. For the lyric text \<open>[\<close> the only note yields no
  event and nothing is raised.
\<close>

theorem bracketed_word_phoneme_timing:
  "(\<exists>m g1. generate_melody_from_lyrics R ''[Chorus]'' genre mood 120 g = Inr (m, g1)
        \<and> map syllable (melody_notes m) = [''[chorus][0]'', ''[chorus][1]'']
        \<and> generate_phoneme_timing m = Inl ZeroDivisionError
        \<and> generate_vocals_with_melody R ''[Chorus]'' m settings sample g1
            = Inl ZeroDivisionError)
   \<and> (\<exists>m g1. generate_melody_from_lyrics R ''['' genre mood 120 g = Inr (m, g1)
        \<and> map syllable (melody_notes m) = [''['']
        \<and> generate_phoneme_timing m = Inr [])"
proof
  have t: "(120::int) \<noteq> 0" by simp
  from generate_melody_one_line [OF chorus_line t, of R genre mood g]
  obtain m g1 root_note sn g0 cp ct where
    gen: "generate_melody_from_lyrics R ''[Chorus]'' genre mood 120 g = Inr (m, g1)"
    and ne: "sn \<noteq> []"
    and wl: "word_loop R (line_emotion ''[Chorus]'') root_note sn 120
               (analyze_line_syllables ''[Chorus]'') (root_note + 12, 0, [], g0)
             = Inr (cp, ct, melody_notes m, g1)"
    by blast
  define wd where "wd = \<lparr>word = ''[chorus]'', syllable_count = 2,
                          stress_pattern = [True, False], word_emotion = 0\<rparr>"
  define lw where "lw = line_emotion ''[Chorus]''"
  from syllable_step_returns [OF t ne, of R wd lw root_note 0 True "root_note + 12" 0 g0]
  obtain n1 cp1 ct1 ga where
    s1: "syllable_step R wd lw root_note sn 120 0 True (root_note + 12) 0 g0
         = Inr (n1, cp1, ct1, ga)" by blast
  from syllable_step_returns [OF t ne, of R wd lw root_note "Suc 0" False cp1 ct1 ga]
  obtain n2 cp2 ct2 gb where
    s2: "syllable_step R wd lw root_note sn 120 (Suc 0) False cp1 ct1 ga
         = Inr (n2, cp2, ct2, gb)" by blast
  have en: "enumerate 0 (stress_pattern wd) = [(0, True), (1, False)]"
    by (simp add: wd_def enumerate_simps)
  have "word_loop R lw root_note sn 120 [wd] (root_note + 12, 0, [], g0)
        = Inr (cp2, ct2, [n1, n2], gb)"
    by (simp add: en s1 s2)
  with wl have mn: "melody_notes m = [n1, n2]"
    unfolding chorus_words wd_def [symmetric] lw_def [symmetric] by simp
  have syl1: "syllable n1 = ''[chorus][0]''"
    using syllable_step_Inr(9) [OF s1] by (simp add: wd_def str_nat_digits del: str_nat.simps)
  have syl2: "syllable n2 = ''[chorus][1]''"
    using syllable_step_Inr(9) [OF s2] by (simp add: wd_def str_nat_digits del: str_nat.simps)
  have d1: "\<exists>d. duration n1 = NpFloat64 d"
    unfolding syllable_step_Inr(6) [OF s1] if_True by (rule exI, rule refl)
  have d2: "\<exists>d. duration n2 = PyFloat d"
    unfolding syllable_step_Inr(6) [OF s2] if_False by (rule exI, rule refl)
  have p1: "note_phoneme_timing n1 = Inr []"
    using note_phoneme_timing_bracket [of n1] d1 by (auto simp: syl1 strip_index_bracket)
  have p2: "note_phoneme_timing n2 = Inl ZeroDivisionError"
    using note_phoneme_timing_bracket [of n2] d2 by (auto simp: syl2 strip_index_bracket)
  have pt: "generate_phoneme_timing m = Inl ZeroDivisionError"
    by (simp add: generate_phoneme_timing_def mn p1 p2)
  have v: "generate_vocals_with_melody R ''[Chorus]'' m settings sample g1
            = Inl ZeroDivisionError"
    unfolding generate_vocals_with_melody_def Let_def pt sum.case by (rule refl)
  show "\<exists>m g1. generate_melody_from_lyrics R ''[Chorus]'' genre mood 120 g = Inr (m, g1)
        \<and> map syllable (melody_notes m) = [''[chorus][0]'', ''[chorus][1]'']
        \<and> generate_phoneme_timing m = Inl ZeroDivisionError
        \<and> generate_vocals_with_melody R ''[Chorus]'' m settings sample g1
            = Inl ZeroDivisionError"
    using gen mn syl1 syl2 pt v by auto
next
  have t: "(120::int) \<noteq> 0" by simp
  from generate_melody_one_line [OF bracket_line t, of R genre mood g]
  obtain m g1 root_note sn g0 cp ct where
    gen: "generate_melody_from_lyrics R ''['' genre mood 120 g = Inr (m, g1)"
    and ne: "sn \<noteq> []"
    and wl: "word_loop R (line_emotion ''['') root_note sn 120
               (analyze_line_syllables ''['') (root_note + 12, 0, [], g0)
             = Inr (cp, ct, melody_notes m, g1)"
    by blast
  define wd where "wd = \<lparr>word = ''['', syllable_count = 1,
                          stress_pattern = [True], word_emotion = 0\<rparr>"
  define lw where "lw = line_emotion ''[''"
  from syllable_step_returns [OF t ne, of R wd lw root_note 0 True "root_note + 12" 0 g0]
  obtain n1 cp1 ct1 ga where
    s1: "syllable_step R wd lw root_note sn 120 0 True (root_note + 12) 0 g0
         = Inr (n1, cp1, ct1, ga)" by blast
  have en: "enumerate 0 (stress_pattern wd) = [(0, True)]"
    by (simp add: wd_def enumerate_simps)
  have "word_loop R lw root_note sn 120 [wd] (root_note + 12, 0, [], g0)
        = Inr (cp1, ct1, [n1], ga)"
    by (simp add: en s1)
  with wl have mn: "melody_notes m = [n1]"
    unfolding bracket_words wd_def [symmetric] lw_def [symmetric] by simp
  have syl1: "syllable n1 = ''[''"
    using syllable_step_Inr(9) [OF s1] by (simp add: wd_def str_nat_digits del: str_nat.simps)
  have d1: "\<exists>d. duration n1 = NpFloat64 d"
    unfolding syllable_step_Inr(6) [OF s1] if_True by (rule exI, rule refl)
  have p1: "note_phoneme_timing n1 = Inr []"
    using note_phoneme_timing_bracket [of n1] d1 by (auto simp: syl1 strip_index_bracket)
  have pt: "generate_phoneme_timing m = Inr []"
    by (simp add: generate_phoneme_timing_def mn p1)
  show "\<exists>m g1. generate_melody_from_lyrics R ''['' genre mood 120 g = Inr (m, g1)
        \<and> map syllable (melody_notes m) = [''['']
        \<and> generate_phoneme_timing m = Inr []"
    using gen mn syl1 pt by auto
qed

text \<open>For a note whose stripped syllable is not empty the claim holds.\<close>

lemma phoneme_loop_facts:
  "length (phoneme_loop n d ps t) = length ps
   \<and> sum_list (map ph_duration (phoneme_loop n d ps t)) = of_nat (length ps) * d
   \<and> map phoneme (phoneme_loop n d ps t) = ps
   \<and> (\<forall>e \<in> set (phoneme_loop n d ps t). ph_pitch e = pitch n \<and> ph_velocity e = velocity n
         \<and> ph_duration e = d)
   \<and> (\<forall>k < length ps. ph_start_time (phoneme_loop n d ps t ! k) = t + of_nat k * d)"
proof (induction ps arbitrary: t)
  case Nil
  show ?case by simp
next
  case (Cons p ps)
  have "ph_start_time (phoneme_loop n d (p # ps) t ! k) = t + of_nat k * d"
    if "k < length (p # ps)" for k
  proof (cases k)
    case 0
    then show ?thesis by simp
  next
    case (Suc j)
    with that have "j < length ps" by simp
    with Cons.IH [of "t + d"] have
      "ph_start_time (phoneme_loop n d ps (t + d) ! j) = (t + d) + of_nat j * d" by blast
    then show ?thesis unfolding Suc by (simp add: algebra_simps)
  qed
  with Cons.IH [of "t + d"] show ?case by (auto simp: algebra_simps)
qed

lemma note_phoneme_timing_nonempty:
  assumes "strip_index (syllable n) \<noteq> []"
  shows "\<exists>evs. note_phoneme_timing n = Inr evs
           \<and> length evs = length (strip_index (syllable n))
           \<and> sum_list (map ph_duration evs) = fval (duration n)
           \<and> (\<forall>e \<in> set evs. ph_pitch e = pitch n \<and> ph_velocity e = velocity n)
           \<and> (\<forall>k < length evs. ph_start_time (evs ! k)
                 = timestamp n + of_nat k * (fval (duration n) / of_nat (length evs)))"
proof -
  define ps where "ps = lower (strip_index (syllable n))"
  have len: "length ps = length (strip_index (syllable n))" by (simp add: ps_def lower_def)
  with assms have ne: "ps \<noteq> []" by auto
  define d where "d = fval (duration n) / of_nat (length ps)"
  have r: "note_phoneme_timing n = Inr (phoneme_loop n d ps (timestamp n))"
    unfolding note_phoneme_timing_def Let_def ps_def [symmetric] d_def using ne by simp
  have s: "of_nat (length ps) * d = fval (duration n)" using ne by (simp add: d_def)
  from phoneme_loop_facts [of n d ps "timestamp n"] show ?thesis
    unfolding r using len s d_def by auto
qed

section \<open>Examples\<close>

text \<open>The lyric text of the examples has the lines \<open>hope\<close>, a blank line and \<open>day one\<close>;
  the genre is folk, the mood calm and the tempo 60.\<close>

lemma example_melody:
  "case generate_melody_from_lyrics example_source
          (''hope'' @ [CHR 0x0A, CHR '' '', CHR 0x0A] @ ''day one'') ''folk'' ''calm'' 60 0 of
     Inl e \<Rightarrow> False
   | Inr (m, g') \<Rightarrow>
       map lyric_line (phrases m) = [''hope'', ''day one'']
       \<and> map start_time (phrases m) = [0, 11/4]
       \<and> total_duration m = 34/5
       \<and> map (\<lambda>p. map timestamp (phrase_notes p)) (phrases m)
           = [[0, 7/4], [11/4, 171/40, 29/5]]
       \<and> map (\<lambda>p. map (\<lambda>n. fval (duration n)) (phrase_notes p)) (phrases m)
           = [[7/4, 1], [61/40, 61/40, 1]]
       \<and> map (\<lambda>p. map velocity (phrase_notes p)) (phrases m) = [[100, 80], [92, 90, 70]]
       \<and> map (\<lambda>p. map pitch (phrase_notes p)) (phrases m) = [[74, 74], [72, 74, 74]]
       \<and> map num_points (melody_notes m) = [17, 10, 15, 15, 10]"
  by code_simp

lemma example_key:
  "determine_key_and_scale example_source
     (emotional_arc (analyze_lyrics_structure
        (''hope'' @ [CHR 0x0A, CHR '' '', CHR 0x0A] @ ''day one''))) ''calm'' 0
   = ((60, ''pentatonic_major''), 1)"
  by code_simp

theorem melody_phrase_timing_witness:
  "0 < (60::int)
   \<and> (\<exists>m g'. generate_melody_from_lyrics example_source
          (''hope'' @ [CHR 0x0A, CHR '' '', CHR 0x0A] @ ''day one'') ''folk'' ''calm'' 60 0
          = Inr (m, g')
        \<and> map lyric_line (phrases m) = [''hope'', ''day one'']
        \<and> map start_time (phrases m) = [0, 11/4]
        \<and> total_duration m = 34/5
        \<and> map (\<lambda>p. map timestamp (phrase_notes p)) (phrases m)
            = [[0, 7/4], [11/4, 171/40, 29/5]]
        \<and> total_duration m = sum_list (map phrase_duration (phrases m)))"
proof -
  have t: "0 < (60::int)" by simp
  from melody_phrase_timing [OF t, of example_source
      "''hope'' @ [CHR 0x0A, CHR '' '', CHR 0x0A] @ ''day one''" "''folk''" "''calm''" 0]
  obtain m g' where gen: "generate_melody_from_lyrics example_source
          (''hope'' @ [CHR 0x0A, CHR '' '', CHR 0x0A] @ ''day one'') ''folk'' ''calm'' 60 0
          = Inr (m, g')"
    and tot: "total_duration m = sum_list (map phrase_duration (phrases m))" by blast
  from example_melody show ?thesis unfolding gen using t tot gen by auto
qed

theorem note_velocity_and_duration_witness:
  "0 < (60::int) \<and> (60::int) \<le> 10 ^ 300
   \<and> (\<exists>m g'. generate_melody_from_lyrics example_source
          (''hope'' @ [CHR 0x0A, CHR '' '', CHR 0x0A] @ ''day one'') ''folk'' ''calm'' 60 0
          = Inr (m, g')
        \<and> map lyric_line (phrases m) = [''hope'', ''day one'']
        \<and> map (\<lambda>p. map velocity (phrase_notes p)) (phrases m) = [[100, 80], [92, 90, 70]]
        \<and> map (\<lambda>p. map (\<lambda>n. fval (duration n)) (phrase_notes p)) (phrases m)
            = [[7/4, 1], [61/40, 61/40, 1]]
        \<and> (\<forall>p \<in> set (phrases m).
              map velocity (phrase_notes p)
                = concat (map (\<lambda>w. map (\<lambda>stressed. velocity_spec stressed (get_emotion_weight w))
                                      (default_stress (count_syllables w)))
                            (split_ws (lower (lyric_line p))))
              \<and> (\<forall>n \<in> set (phrase_notes p).
                    40 \<le> velocity n \<and> velocity n \<le> 127 \<and> 0 < fval (duration n))))"
proof -
  have t: "0 < (60::int)" and u: "(60::int) \<le> 10 ^ 300" by simp_all
  from note_velocity_and_duration [OF t u, of example_source
      "''hope'' @ [CHR 0x0A, CHR '' '', CHR 0x0A] @ ''day one''" "''folk''" "''calm''" 0]
  obtain m g' where gen: "generate_melody_from_lyrics example_source
          (''hope'' @ [CHR 0x0A, CHR '' '', CHR 0x0A] @ ''day one'') ''folk'' ''calm'' 60 0
          = Inr (m, g')"
    and b: "\<forall>p \<in> set (phrases m).
              map velocity (phrase_notes p)
                = concat (map (\<lambda>w. map (\<lambda>stressed. velocity_spec stressed (get_emotion_weight w))
                                      (default_stress (count_syllables w)))
                            (split_ws (lower (lyric_line p))))
              \<and> (\<forall>n \<in> set (phrase_notes p).
                    40 \<le> velocity n \<and> velocity n \<le> 127 \<and> 0 < fval (duration n))" by blast
  from example_melody have
    l: "map lyric_line (phrases m) = [''hope'', ''day one'']"
    and v: "map (\<lambda>p. map velocity (phrase_notes p)) (phrases m) = [[100, 80], [92, 90, 70]]"
    and dd: "map (\<lambda>p. map (\<lambda>n. fval (duration n)) (phrase_notes p)) (phrases m)
            = [[7/4, 1], [61/40, 61/40, 1]]"
    unfolding gen by simp_all
  show ?thesis
    by (intro conjI exI [of _ m] exI [of _ g']) (fact t u gen l v dd b)+
qed

theorem pitches_in_selected_scale_witness:
  "\<exists>m g' sn. generate_melody_from_lyrics example_source
          (''hope'' @ [CHR 0x0A, CHR '' '', CHR 0x0A] @ ''day one'') ''folk'' ''calm'' 60 0
          = Inr (m, g')
      \<and> map_of scales ''pentatonic_major'' = Some sn \<and> sn = [0, 2, 4, 7, 9]
      \<and> map (\<lambda>p. map pitch (phrase_notes p)) (phrases m) = [[74, 74], [72, 74, 74]]
      \<and> (\<forall>p \<in> set (phrases m). \<forall>n \<in> set (phrase_notes p). (pitch n - 60) mod 12 \<in> set sn)"
proof -
  have t: "(60::int) \<noteq> 0" by simp
  from generate_melody_returns [OF t, of example_source
      "''hope'' @ [CHR 0x0A, CHR '' '', CHR 0x0A] @ ''day one''" "''folk''" "''calm''" 0]
  obtain m g' where gen: "generate_melody_from_lyrics example_source
          (''hope'' @ [CHR 0x0A, CHR '' '', CHR 0x0A] @ ''day one'') ''folk'' ''calm'' 60 0
          = Inr (m, g')" by blast
  from pitches_in_selected_scale [of example_source
      "''hope'' @ [CHR 0x0A, CHR '' '', CHR 0x0A] @ ''day one''" "''folk''" "''calm''" 60 0,
      THEN conjunct1, rule_format, OF gen example_key]
  obtain sn where sn: "map_of scales ''pentatonic_major'' = Some sn"
    and b: "\<forall>p \<in> set (phrases m). \<forall>n \<in> set (phrase_notes p). (pitch n - 60) mod 12 \<in> set sn"
    by blast
  have "map_of scales ''pentatonic_major'' = Some [0, 2, 4, 7, 9]" by code_simp
  with sn have s: "sn = [0, 2, 4, 7, 9]" by simp
  from example_melody show ?thesis unfolding gen using sn s b gen by auto
qed

theorem contour_dynamics_aligned_witness:
  "\<exists>m g'. generate_melody_from_lyrics example_source
          (''hope'' @ [CHR 0x0A, CHR '' '', CHR 0x0A] @ ''day one'') ''folk'' ''calm'' 60 0
          = Inr (m, g')
      \<and> map num_points (melody_notes m) = [17, 10, 15, 15, 10]
      \<and> length (fst (extract_pitch_contour example_source m g')) = 67
      \<and> length (generate_dynamics m) = 67"
proof -
  have t: "(60::int) \<noteq> 0" by simp
  from generate_melody_returns [OF t, of example_source
      "''hope'' @ [CHR 0x0A, CHR '' '', CHR 0x0A] @ ''day one''" "''folk''" "''calm''" 0]
  obtain m g' where gen: "generate_melody_from_lyrics example_source
          (''hope'' @ [CHR 0x0A, CHR '' '', CHR 0x0A] @ ''day one'') ''folk'' ''calm'' 60 0
          = Inr (m, g')" by blast
  from example_melody have np: "map num_points (melody_notes m) = [17, 10, 15, 15, 10]"
    unfolding gen by simp
  from contour_dynamics_aligned [of example_source m g']
  have "length (fst (extract_pitch_contour example_source m g'))
          = sum_list (map num_points (melody_notes m))"
    and "length (generate_dynamics m) = sum_list (map num_points (melody_notes m))"
    by blast+
  then show ?thesis using gen np by auto
qed

section \<open>Audio features\<close>

lemma genre_adjustments_cases:
  assumes "map_of genre_adjustments k = Some adj"
  shows "adj = [(''danceability'', 8/10), (''energy'', 7/10), (''acousticness'', 2/10)]
       \<or> adj = [(''energy'', 9/10), (''acousticness'', 1/10), (''danceability'', 6/10)]
       \<or> adj = [(''danceability'', 9/10), (''energy'', 8/10), (''acousticness'', 5/100)]
       \<or> adj = [(''acousticness'', 8/10), (''energy'', 4/10), (''danceability'', 3/10)]"
  using map_of_SomeD [OF assms] by (auto simp: genre_adjustments_def)

text \<open>
  Claim C8. For every genre and mood, the profile returned by \<open>_generate_audio_features\<close>
  is the fixed baseline (energy 0.7, valence 0.5, danceability 0.6, acousticness 0.3,
  instrumentalness 0.1), changed first by the mood's entry (energy replaced, valence set
  to 0.8 when that energy exceeds 0.6 and to 0.3 otherwise) and then by the genre's entry,
  which overwrites every field it names whatever the mood stage wrote; a mood or a genre
  that is in no table changes nothing. Both labels are looked up in lower case.
\<close>

theorem audio_features_mood_then_genre:
  "(let f = generate_audio_features genre mood t root_note scale_name;
        m = map_of emotion_mappings (lower mood);
        a = map_of genre_adjustments (lower genre);
        overwritten = (\<lambda>k previous.
           case a of None \<Rightarrow> previous
           | Some adj \<Rightarrow> (case map_of adj k of None \<Rightarrow> previous | Some v \<Rightarrow> v))
    in tempo f = t \<and> key f = midi_to_note_name root_note \<and> time_signature f = ''4/4''
     \<and> energy f = overwritten ''energy'' (case m of None \<Rightarrow> 7/10 | Some cfg \<Rightarrow> mood_energy cfg)
     \<and> valence f = overwritten ''valence''
           (case m of None \<Rightarrow> 5/10
            | Some cfg \<Rightarrow> if mood_energy cfg > 6/10 then 8/10 else 3/10)
     \<and> danceability f = overwritten ''danceability'' (6/10)
     \<and> acousticness f = overwritten ''acousticness'' (3/10)
     \<and> instrumentalness f = overwritten ''instrumentalness'' (1/10))"
proof (cases "map_of genre_adjustments (lower genre)")
  case None
  then show ?thesis
    by (simp add: generate_audio_features_def Let_def split: option.splits)
next
  case (Some adj)
  from genre_adjustments_cases [OF Some] show ?thesis
    by (elim disjE)
       (simp_all add: Some generate_audio_features_def Let_def setattr_def split: option.splits)
qed

text \<open>The genre pop (energy 0.7) after the mood happy (energy 0.8, so valence 0.8).\<close>

theorem audio_features_mood_then_genre_witness:
  "energy (generate_audio_features ''Pop'' ''happy'' 120 60 ''major'') = 7/10
   \<and> valence (generate_audio_features ''Pop'' ''happy'' 120 60 ''major'') = 8/10
   \<and> danceability (generate_audio_features ''Pop'' ''happy'' 120 60 ''major'') = 8/10"
  using audio_features_mood_then_genre [of "''Pop''" "''happy''" 120 60 "''major''"]
  by code_simp

section \<open>The random source\<close>


























end
